theory Spec2Isabelle
  imports Main "HOL-Library.Char_ord" "HOL-Library.List_Lexorder"
begin

section \<open>Command line options (class Options)\<close>

text \<open>
  The option arguments list is a \<^verbatim>\<open>std::list<std::string>\<close>. The options map is a
  \<^verbatim>\<open>std::multimap<std::string, Arguments>\<close>: its entries are kept ordered by key
  (\<^verbatim>\<open>std::string\<close> compares bytes lexicographically), entries with equal keys in
  the order of their insertion. It is modelled as the list of its entries in iteration
  order.
\<close>

type_synonym Arguments = "string list"

type_synonym Map = "(string \<times> Arguments) list"

datatype type_t = singleDash | doubleDash

text \<open>
  \<^verbatim>\<open>m_last\<close> points to the arguments of the entry inserted last, or is \<^verbatim>\<open>NULL\<close>.
  The pointer is modelled by the map the entry lives in and the entry's position there.
  Every insertion overwrites \<^verbatim>\<open>m_last\<close>, so a stored position is never shifted by a
  later insertion.
\<close>

record Options =
  m_last :: "(type_t \<times> nat) option"
  m_args :: Arguments
  m_single :: Map
  m_double :: Map

text \<open>\<^verbatim>\<open>std::multimap::insert\<close>: the new entry goes to the upper bound of its key.\<close>

fun upper_bound :: "Map \<Rightarrow> string \<Rightarrow> nat" where
  "upper_bound [] k = 0"
| "upper_bound (e # m) k = (if k < fst e then 0 else Suc (upper_bound m k))"

definition insert_entry :: "Map \<Rightarrow> string \<Rightarrow> Arguments \<Rightarrow> Map \<times> nat" where
  "insert_entry m k v =
     (let i = upper_bound m k in (take i m @ [(k, v)] @ drop i m, i))"

definition add :: "Options \<Rightarrow> type_t \<Rightarrow> string \<Rightarrow> Options" where
  "add opts type opt =
     (case type of
        singleDash \<Rightarrow>
          (let (m, entry) = insert_entry (m_single opts) opt []
           in opts\<lparr>m_single := m, m_last := Some (singleDash, entry)\<rparr>)
      | doubleDash \<Rightarrow>
          (let (m, entry) = insert_entry (m_double opts) opt []
           in opts\<lparr>m_double := m, m_last := Some (doubleDash, entry)\<rparr>))"

text \<open>\<^verbatim>\<open>args->push_back(arg)\<close> through a pointer to the arguments of entry \<open>i\<close>.\<close>

definition push_back_at :: "Map \<Rightarrow> nat \<Rightarrow> string \<Rightarrow> Map" where
  "push_back_at m i arg = (if i < length m then m[i := (fst (m ! i), snd (m ! i) @ [arg])] else m)"

definition addArg :: "Options \<Rightarrow> string \<Rightarrow> Options" where
  "addArg opts arg =
     (case m_last opts of
        None \<Rightarrow> opts\<lparr>m_args := m_args opts @ [arg]\<rparr>
      | Some (singleDash, i) \<Rightarrow> opts\<lparr>m_single := push_back_at (m_single opts) i arg\<rparr>
      | Some (doubleDash, i) \<Rightarrow> opts\<lparr>m_double := push_back_at (m_double opts) i arg\<rparr>)"

text \<open>
  \<^verbatim>\<open>multimap::find\<close> gives an iterator to an entry with the key, in the
  implementations of the standard library to the first one, or the end iterator. An
  iterator is modelled by the rest of the entries from its position on, the end iterator
  by the empty list.
\<close>

definition find_entry :: "Map \<Rightarrow> string \<Rightarrow> Map" where
  "find_entry m opt = dropWhile (\<lambda>e. fst e \<noteq> opt) m"

text \<open>\<^verbatim>\<open>Options::count(map, opt)\<close>\<close>

fun count_from :: "Map \<Rightarrow> string \<Rightarrow> nat \<Rightarrow> nat" where
  "count_from [] opt cnt = cnt"
| "count_from (e # entry) opt cnt = (if fst e = opt then count_from entry opt (Suc cnt) else cnt)"

definition count_map :: "Map \<Rightarrow> string \<Rightarrow> nat" where
  "count_map m opt = count_from (find_entry m opt) opt 0"

text \<open>\<^verbatim>\<open>Options::get(map, opt, args, order)\<close>; \<open>None\<close> is the return value \<^verbatim>\<open>false\<close>.\<close>

fun get_from :: "Map \<Rightarrow> string \<Rightarrow> nat \<Rightarrow> Arguments option" where
  "get_from [] opt order = None"
| "get_from (e # rest) opt 0 = Some (snd e)"
| "get_from (e # rest) opt (Suc order) =
     (case rest of
        [] \<Rightarrow> None
      | next # _ \<Rightarrow> if fst next \<noteq> opt then None else get_from rest opt order)"

definition get :: "Map \<Rightarrow> string \<Rightarrow> nat \<Rightarrow> Arguments option" where
  "get m opt order = get_from (find_entry m opt) opt order"

definition strings :: "Map \<Rightarrow> string list" where
  "strings m = map fst m"

definition countSingle :: "'a Options_scheme \<Rightarrow> string \<Rightarrow> nat" where
  "countSingle opts opt = count_map (m_single opts) opt"

definition countDouble :: "'a Options_scheme \<Rightarrow> string \<Rightarrow> nat" where
  "countDouble opts opt = count_map (m_double opts) opt"

text \<open>
  \<^verbatim>\<open>inline bool count(const std::string & opt) const\<close>: the sum of the two counts is
  converted to the declared return type \<^verbatim>\<open>bool\<close>. The counts are of type
  \<^verbatim>\<open>size_t\<close> and at most \<^verbatim>\<open>argc\<close>, an \<^verbatim>\<open>int\<close>, so that they are natural
  numbers that never wrap around.
\<close>

definition count :: "'a Options_scheme \<Rightarrow> string \<Rightarrow> bool" where
  "count opts opt = (countSingle opts opt + countDouble opts opt \<noteq> 0)"

definition getDouble :: "'a Options_scheme \<Rightarrow> string \<Rightarrow> nat \<Rightarrow> Arguments option" where
  "getDouble opts opt order = get (m_double opts) opt order"

definition stringsSingle :: "'a Options_scheme \<Rightarrow> string list" where
  "stringsSingle opts = strings (m_single opts)"

definition stringsDouble :: "'a Options_scheme \<Rightarrow> string list" where
  "stringsDouble opts = strings (m_double opts)"

text \<open>The body of the constructor's loop, for one element of \<^verbatim>\<open>argv\<close>.\<close>

definition process_arg :: "Options \<Rightarrow> string \<Rightarrow> Options" where
  "process_arg opts arg =
     (if arg = [] \<or> arg ! 0 \<noteq> CHR ''-'' \<or> length arg = 1 then addArg opts arg
      else if arg ! 1 \<noteq> CHR ''-'' then add opts singleDash (drop 1 arg)
      else if length arg = 2 then opts\<lparr>m_last := None\<rparr>
      else if arg ! 2 \<noteq> CHR ''-'' then add opts doubleDash (drop 2 arg)
      else addArg opts arg)"

definition Options_init :: Options where
  "Options_init = \<lparr>m_last = None, m_args = [], m_single = [], m_double = []\<rparr>"

text \<open>
  \<^verbatim>\<open>Options::Options(argv, argc)\<close>: the list \<open>argv\<close> has \<^verbatim>\<open>argc\<close> elements, the loop
  starts at index 1.
\<close>

definition Options_ctor :: "string list \<Rightarrow> Options" where
  "Options_ctor argv = foldl process_arg Options_init (drop 1 argv)"

section \<open>nutconf tool specific options (class NutConfOptions)\<close>

datatype mode_t = NOT_SPECIFIED | GETTER | SETTER

type_synonym ListenAddrSpec = "string \<times> string"

text \<open>The field \<^verbatim>\<open>id\<close> of the device specification is named \<open>dev_id\<close> here.\<close>

record DeviceSpec =
  dev_id :: string
  driver :: string
  port :: string
  desc :: string

record NutConfOptions = Options +
  m_unknown :: "string list"
  m_errors :: "string list"
  valid :: bool
  autoconfigure :: bool
  is_configured :: bool
  local :: string
  system :: bool
  mode :: string
  monitors :: "string list"
  set_monitor_cnt :: nat
  add_monitor_cnt :: nat
  listen_addrs :: "ListenAddrSpec list"
  set_listen_cnt :: nat
  add_listen_cnt :: nat
  devices :: "DeviceSpec list"
  set_device_cnt :: nat
  add_device_cnt :: nat

text \<open>
  \<^verbatim>\<open>optMode(opt, args, order)\<close>: the mode together with the output parameter
  \<^verbatim>\<open>args\<close>, which every caller passes in empty and \<^verbatim>\<open>get\<close> leaves untouched when
  it returns \<^verbatim>\<open>false\<close>.
\<close>

definition optMode :: "NutConfOptions \<Rightarrow> string \<Rightarrow> nat \<Rightarrow> mode_t \<times> Arguments" where
  "optMode opts opt order =
     (case getDouble opts opt order of
        None \<Rightarrow> (NOT_SPECIFIED, [])
      | Some args \<Rightarrow> if args = [] then (GETTER, args) else (SETTER, args))"

definition checkMode :: "string \<Rightarrow> bool" where
  "checkMode m =
     (if m = ''standalone'' then True
      else if m = ''netserver'' then True
      else if m = ''netclient'' then True
      else if m = ''controlled'' then True
      else if m = ''manual'' then True
      else if m = ''none'' then True
      else False)"

definition push_error :: "NutConfOptions \<Rightarrow> string \<Rightarrow> NutConfOptions" where
  "push_error opts msg = opts\<lparr>m_errors := m_errors opts @ [msg]\<rparr>"

text \<open>The double quote character of the message for an unknown mode.\<close>

definition dquote :: string where
  "dquote = [CHR 0x22]"

text \<open>
  The body of the constructor's second loop, for one element \<open>opt\<close> of the list of
  double-dashed options: first its branches for the monitor, the listen address and the
  device options, then the whole chain of comparisons.
\<close>

definition specify_monitor :: "NutConfOptions \<Rightarrow> string \<Rightarrow> NutConfOptions" where
  "specify_monitor opts opt =
     (let is_set = (opt ! 0 = CHR ''s'');
          cnt = (if is_set then set_monitor_cnt opts else add_monitor_cnt opts);
          (md, args) = optMode opts opt cnt;
          opts1 =
            (if md \<noteq> SETTER then
               push_error opts (''--'' @ opt @ '' option requires arguments'')
             else if length args \<noteq> 6 then
               push_error opts (''--'' @ opt @ '' option requires exactly 6 arguments'')
             else opts\<lparr>monitors := monitors opts @ args\<rparr>)
      in if is_set then opts1\<lparr>set_monitor_cnt := Suc cnt\<rparr>
         else opts1\<lparr>add_monitor_cnt := Suc cnt\<rparr>)"

definition specify_listen :: "NutConfOptions \<Rightarrow> string \<Rightarrow> NutConfOptions" where
  "specify_listen opts opt =
     (let is_set = (opt ! 0 = CHR ''s'');
          cnt = (if is_set then set_listen_cnt opts else add_listen_cnt opts);
          (md, args) = optMode opts opt cnt;
          opts1 =
            (if md \<noteq> SETTER then
               push_error opts (''--'' @ opt @ '' option requires arguments'')
             else if length args < 1 \<or> length args > 2 then
               push_error opts (''--'' @ opt @ '' option requires 1 or 2 arguments'')
             else opts\<lparr>listen_addrs := listen_addrs opts @
                         [(hd args, if length args > 1 then last args else [])]\<rparr>)
      in if is_set then opts1\<lparr>set_listen_cnt := Suc cnt\<rparr>
         else opts1\<lparr>add_listen_cnt := Suc cnt\<rparr>)"

definition specify_device :: "NutConfOptions \<Rightarrow> string \<Rightarrow> NutConfOptions" where
  "specify_device opts opt =
     (let is_set = (opt ! 0 = CHR ''s'');
          cnt = (if is_set then set_device_cnt opts else add_device_cnt opts);
          (md, args) = optMode opts opt cnt;
          opts1 =
            (if md \<noteq> SETTER then
               push_error opts (''--'' @ opt @ '' option requires arguments'')
             else if length args < 3 then
               push_error opts (''--'' @ opt @ '' option requires at least 3 arguments'')
             else if length args > 4 then
               push_error
                 (push_error opts (''--'' @ opt @ '' option takes at most 4 arguments''))
                 ''    (perhaps you need to quote description?)''
             else opts\<lparr>devices := devices opts @
                         [\<lparr>dev_id = args ! 0, driver = args ! 1, port = args ! 2,
                           desc = (if length args > 3 then args ! 3 else [])\<rparr>]\<rparr>)
      in if is_set then opts1\<lparr>set_device_cnt := Suc cnt\<rparr>
         else opts1\<lparr>add_device_cnt := Suc cnt\<rparr>)"

definition specify :: "NutConfOptions \<Rightarrow> string \<Rightarrow> NutConfOptions" where
  "specify opts opt =
     (if opt = ''autoconfigure'' then
        (if autoconfigure opts then
           push_error opts ''--autoconfigure option specified more than once''
         else opts\<lparr>autoconfigure := True\<rparr>)
      else if opt = ''is-configured'' then
        (if is_configured opts then
           push_error opts ''--is-configured option specified more than once''
         else opts\<lparr>is_configured := True\<rparr>)
      else if opt = ''local'' then
        (let (md, args) = optMode opts ''local'' 0
         in if local opts \<noteq> [] then
              push_error opts ''--local option specified more than once''
            else if md \<noteq> SETTER then
              push_error opts ''--local option requires an argument''
            else if length args > 1 then
              push_error opts ''Only one directory may be specified with the --local option''
            else opts\<lparr>local := hd args\<rparr>)
      else if opt = ''system'' then
        (if system opts then
           push_error opts ''--system option specified more than once''
         else opts\<lparr>system := True\<rparr>)
      else if opt = ''mode'' then
        (let (md, args) = optMode opts ''mode'' 0
         in if mode opts \<noteq> [] then
              push_error opts ''--mode option specified more than once''
            else if md \<noteq> SETTER then
              push_error opts ''--mode option requires an argument''
            else if length args > 1 then
              push_error opts ''Only one argument allowed for the --mode option''
            else if length args = 1 \<and> \<not> checkMode (hd args) then
              push_error opts (''Unknown NUT mode: '' @ dquote @ hd args @ dquote)
            else opts\<lparr>mode := hd args\<rparr>)
      else if opt = ''set-monitor'' \<or> opt = ''add-monitor'' then specify_monitor opts opt
      else if opt = ''set-listen'' \<or> opt = ''add-listen'' then specify_listen opts opt
      else if opt = ''set-device'' \<or> opt = ''add-device'' then specify_device opts opt
      else opts\<lparr>m_unknown := m_unknown opts @ [''--'' @ opt]\<rparr>)"

text \<open>The member initialisers of the constructor.\<close>

definition NutConfOptions_init :: "Options \<Rightarrow> NutConfOptions" where
  "NutConfOptions_init base =
     Options.extend base
       (NutConfOptions.fields [] [] True False False [] False [] [] 0 0 [] 0 0 [] 0 0)"

definition unknown_single :: "NutConfOptions \<Rightarrow> string \<Rightarrow> NutConfOptions" where
  "unknown_single opts opt = opts\<lparr>m_unknown := m_unknown opts @ [''-'' @ opt]\<rparr>"

text \<open>The state when both loops of the constructor are done.\<close>

definition specified :: "string list \<Rightarrow> NutConfOptions" where
  "specified argv =
     (let opts0 = NutConfOptions_init (Options_ctor argv);
          opts1 = foldl unknown_single opts0 (stringsSingle opts0)
      in foldl specify opts1 (stringsDouble opts1))"

definition set_valid :: "NutConfOptions \<Rightarrow> NutConfOptions" where
  "set_valid opts =
     opts\<lparr>valid := (m_unknown opts = [] \<and> m_errors opts = [] \<and> m_args opts = [])\<rparr>"

definition exclusive_monitor :: "NutConfOptions \<Rightarrow> NutConfOptions" where
  "exclusive_monitor opts =
     (if set_monitor_cnt opts > 0 \<and> add_monitor_cnt opts > 0 then
        (push_error opts
           ''--set-monitor and --add-monitor options can't both be specified'')
        \<lparr>valid := False\<rparr>
      else opts)"

definition exclusive_listen :: "NutConfOptions \<Rightarrow> NutConfOptions" where
  "exclusive_listen opts =
     (if set_listen_cnt opts > 0 \<and> add_listen_cnt opts > 0 then
        (push_error opts
           ''--set-listen and --add-listen options can't both be specified'')
        \<lparr>valid := False\<rparr>
      else opts)"

definition exclusive_device :: "NutConfOptions \<Rightarrow> NutConfOptions" where
  "exclusive_device opts =
     (if set_device_cnt opts > 0 \<and> add_device_cnt opts > 0 then
        (push_error opts
           ''--set-device and --add-device options can't both be specified'')
        \<lparr>valid := False\<rparr>
      else opts)"

text \<open>\<^verbatim>\<open>NutConfOptions::NutConfOptions(argv, argc)\<close>\<close>

definition NutConfOptions_ctor :: "string list \<Rightarrow> NutConfOptions" where
  "NutConfOptions_ctor argv =
     exclusive_device (exclusive_listen (exclusive_monitor (set_valid (specified argv))))"

text \<open>
  \<^verbatim>\<open>NutConfOptions::getMonitor\<close>: the six output parameters are returned as a tuple,
  the exception and the failing assertion as errors.
\<close>

datatype error =
  range_error
  | assertion_failed
  | failed_to_parse_host_specification
  | failed_to_parse_power_value
  | invalidated_iterator

definition getMonitor ::
  "NutConfOptions \<Rightarrow> nat \<Rightarrow>
     error + (string \<times> string \<times> string \<times> string \<times> string \<times> string)" where
  "getMonitor opts which =
     (if which \<ge> length (monitors opts) div 6 then Inl range_error
      else
        (let base_idx = 6 * which
         in if \<not> length (monitors opts) \<ge> base_idx + 6 then Inl assertion_failed
            else Inr (monitors opts ! base_idx,
                      monitors opts ! (base_idx + 1),
                      monitors opts ! (base_idx + 2),
                      monitors opts ! (base_idx + 3),
                      monitors opts ! (base_idx + 4),
                      monitors opts ! (base_idx + 5))))"

section \<open>Monitor specification (function monitor)\<close>

text \<open>
  The formatted input of an unsigned integer from a \<^verbatim>\<open>std::stringstream\<close>
  (\<^verbatim>\<open>ss >> port\<close>) belongs to the C++ standard library. Its behaviour in the
  default locale and number base is written out here: leading white space is skipped,
  one sign is accepted, then decimal digits are read as far as they go; what follows them
  is left in the stream. The extraction fails when there is no digit or when the number
  read is above the largest value of the type; a number read after a minus sign is
  negated in the type. \<open>None\<close> is the stream's fail state.
\<close>

definition isspace :: "char \<Rightarrow> bool" where
  "isspace c = (c = CHR '' '' \<or> c = CHR 0x09 \<or> c = CHR 0x0A \<or> c = CHR 0x0B
                \<or> c = CHR 0x0C \<or> c = CHR 0x0D)"

definition isdigit :: "char \<Rightarrow> bool" where
  "isdigit c = (CHR ''0'' \<le> c \<and> c \<le> CHR ''9'')"

definition digit_value :: "char \<Rightarrow> nat" where
  "digit_value c = of_char c - of_char CHR ''0''"

definition digits_value :: "string \<Rightarrow> nat" where
  "digits_value ds = foldl (\<lambda>n c. 10 * n + digit_value c) 0 ds"

definition extract_unsigned :: "nat \<Rightarrow> string \<Rightarrow> nat option" where
  "extract_unsigned max_value s =
     (let s1 = dropWhile isspace s;
          negative = (s1 \<noteq> [] \<and> hd s1 = CHR ''-'');
          s2 = (if s1 \<noteq> [] \<and> (hd s1 = CHR ''-'' \<or> hd s1 = CHR ''+'') then tl s1 else s1);
          ds = takeWhile isdigit s2;
          n = digits_value ds
      in if ds = [] then None
         else if n > max_value then None
         else if negative then Some ((Suc max_value - n) mod Suc max_value)
         else Some n)"

text \<open>
  \<^verbatim>\<open>std::string::rfind(c)\<close>: the last position of the character, \<open>None\<close> for
  \<^verbatim>\<open>npos\<close>.
\<close>

fun rfind :: "string \<Rightarrow> char \<Rightarrow> nat option" where
  "rfind [] c = None"
| "rfind (x # xs) c =
     (case rfind xs c of
        Some i \<Rightarrow> Some (Suc i)
      | None \<Rightarrow> if x = c then Some 0 else None)"

text \<open>
  \<^verbatim>\<open>nut::UpsmonConfiguration::Monitor\<close> is declared in \<^verbatim>\<open>nutconf.h\<close>; these are the
  fields the function assigns. The port is an \<^verbatim>\<open>unsigned short\<close>, the power value an
  \<^verbatim>\<open>unsigned int\<close>; both come out of \<open>extract_unsigned\<close> within their range.
\<close>

record Monitor =
  upsname :: string
  hostname :: string
  port :: nat
  powerValue :: nat
  username :: string
  password :: string
  isMaster :: bool

text \<open>
  \<^verbatim>\<open>monitor(i, options)\<close>; the two calls of \<^verbatim>\<open>::exit(1)\<close> are the errors
  \<open>failed_to_parse_host_specification\<close> and \<open>failed_to_parse_power_value\<close>, named
  after the messages printed before the exit.
\<close>

definition monitor :: "nat \<Rightarrow> NutConfOptions \<Rightarrow> error + Monitor" where
  "monitor i options =
     (case getMonitor options i of
        Inl e \<Rightarrow> Inl e
      | Inr (ups, host_port, pwr_val, user, passwd, md) \<Rightarrow>
          (let colon_idx = rfind host_port CHR '':''
           in case (case colon_idx of
                      None \<Rightarrow> Some 0
                    | Some c \<Rightarrow> extract_unsigned 65535 (drop (c + 1) host_port)) of
                None \<Rightarrow> Inl failed_to_parse_host_specification
              | Some port_value \<Rightarrow>
                  (case extract_unsigned 4294967295 pwr_val of
                     None \<Rightarrow> Inl failed_to_parse_power_value
                   | Some power_value \<Rightarrow>
                       Inr \<lparr>upsname = ups,
                            hostname = (case colon_idx of
                                          None \<Rightarrow> host_port
                                        | Some c \<Rightarrow> take c host_port),
                            port = port_value,
                            powerValue = power_value,
                            username = user,
                            password = passwd,
                            isMaster = (md = ''master'')\<rparr>)))"

section \<open>Devices in ups.conf (function setDevices)\<close>

text \<open>
  Modelled from the spec: the types of \<^verbatim>\<open>nut::UpsConfiguration\<close> are declared in
  \<^verbatim>\<open>nutconf.h\<close>, which is not part of the sources at hand. Its sections are a
  \<^verbatim>\<open>std::map\<close> from the section name to the section, the section with the empty
  name being the global one. The map is modelled as the list of its entries in key
  order, a section as the list of its (entry name, value) pairs in key order.
\<close>

type_synonym ConfigSection = "(string \<times> string) list"

type_synonym SectionMap = "(string \<times> ConfigSection) list"

text \<open>
  Assignment through \<^verbatim>\<open>operator[]\<close> of a \<^verbatim>\<open>std::map\<close>: the value under the key is
  replaced by \<open>f\<close> of it, an absent key is inserted at its place in the key order with
  \<open>f None\<close>.
\<close>

fun map_upsert :: "(string \<times> 'v) list \<Rightarrow> string \<Rightarrow> ('v option \<Rightarrow> 'v) \<Rightarrow> (string \<times> 'v) list" where
  "map_upsert [] k f = [(k, f None)]"
| "map_upsert ((k', v) # m) k f =
     (if k = k' then (k', f (Some v)) # m
      else if k < k' then (k, f None) # (k', v) # m
      else (k', v) # map_upsert m k f)"

text \<open>
  Modelled from the spec: the member functions \<^verbatim>\<open>setDriver\<close>, \<^verbatim>\<open>setPort\<close> and
  \<^verbatim>\<open>setDescription\<close> of \<^verbatim>\<open>nut::UpsConfiguration\<close> are not part of the sources at
  hand. They set the driver, the port and the description keyed by the device
  identifier, creating the section if it is absent and overwriting the field if it is
  present; the other fields of the section and the other sections stay as they are.
  \<open>setStr\<close> is what the three have in common: it sets one entry of one section.
\<close>

definition setStr :: "SectionMap \<Rightarrow> string \<Rightarrow> string \<Rightarrow> string \<Rightarrow> SectionMap" where
  "setStr sections section entry v =
     map_upsert sections section
       (\<lambda>s. map_upsert (case s of None \<Rightarrow> [] | Some es \<Rightarrow> es) entry (\<lambda>_. v))"

text \<open>Modelled from the spec: \<^verbatim>\<open>setDriver\<close> sets the entry \<^verbatim>\<open>driver\<close> of the device.\<close>

definition setDriver :: "SectionMap \<Rightarrow> string \<Rightarrow> string \<Rightarrow> SectionMap" where
  "setDriver sections ups v = setStr sections ups ''driver'' v"

text \<open>Modelled from the spec: \<^verbatim>\<open>setPort\<close> sets the entry \<^verbatim>\<open>port\<close> of the device.\<close>

definition setPort :: "SectionMap \<Rightarrow> string \<Rightarrow> string \<Rightarrow> SectionMap" where
  "setPort sections ups v = setStr sections ups ''port'' v"

text \<open>
  Modelled from the spec: \<^verbatim>\<open>setDescription\<close> sets the entry \<^verbatim>\<open>desc\<close> of the device.
\<close>

definition setDescription :: "SectionMap \<Rightarrow> string \<Rightarrow> string \<Rightarrow> SectionMap" where
  "setDescription sections ups v = setStr sections ups ''desc'' v"

text \<open>
  The loop that removes the existing devices. The iterator \<^verbatim>\<open>ups\<close> is modelled by the
  entries from its position on. On the global section the loop continues with the next
  entry. On any other section it calls \<^verbatim>\<open>sections.erase(ups)\<close>, which invalidates
  \<^verbatim>\<open>ups\<close>, and then increments \<^verbatim>\<open>ups\<close>: an increment of an invalidated iterator, for
  which C++ defines no behaviour. The model stops there with the error
  \<open>invalidated_iterator\<close>.
\<close>

fun remove_devices :: "SectionMap \<Rightarrow> SectionMap \<Rightarrow> error + SectionMap" where
  "remove_devices sections [] = Inr sections"
| "remove_devices sections (ups # rest) =
     (if fst ups = [] then remove_devices sections rest
      else Inl invalidated_iterator)"

text \<open>The body of the loop that adds the devices.\<close>

definition set_device :: "SectionMap \<Rightarrow> DeviceSpec \<Rightarrow> SectionMap" where
  "set_device sections dev =
     (let s1 = setDriver sections (dev_id dev) (driver dev);
          s2 = setPort s1 (dev_id dev) (DeviceSpec.port dev)
      in if desc dev \<noteq> [] then setDescription s2 (dev_id dev) (desc dev) else s2)"

text \<open>
  \<^verbatim>\<open>setDevices(devices, etc, keep_ex)\<close>. The configuration sourced from the file is
  the argument \<open>sections\<close>, the configuration stored to the file is the result.
\<close>

definition setDevices :: "DeviceSpec list \<Rightarrow> SectionMap \<Rightarrow> bool \<Rightarrow> error + SectionMap" where
  "setDevices devs sections keep_ex =
     (case (if \<not> keep_ex then remove_devices sections sections else Inr sections) of
        Inl e \<Rightarrow> Inl e
      | Inr sections1 \<Rightarrow> Inr (foldl set_device sections1 devs))"

text \<open>The value \<open>map_upsert\<close> meets under a key on its way through the entries.\<close>

fun map_find :: "(string \<times> 'v) list \<Rightarrow> string \<Rightarrow> 'v option" where
  "map_find [] k = None"
| "map_find ((k', v) # m) k =
     (if k = k' then Some v else if k < k' then None else map_find m k)"

text \<open>The section has the entry with the value.\<close>

definition has_entry :: "SectionMap \<Rightarrow> string \<Rightarrow> string \<Rightarrow> string \<Rightarrow> bool" where
  "has_entry sections section entry v =
     (case map_find sections section of
        None \<Rightarrow> False
      | Some es \<Rightarrow> map_find es entry = Some v)"

section \<open>Option tokens\<close>

text \<open>
  The conditions under which the loop of \<^verbatim>\<open>Options::Options\<close> starts a single-dashed
  and a double-dashed option. Every other element of \<^verbatim>\<open>argv\<close> is an argument or the
  separator \<^verbatim>\<open>--\<close>.
\<close>

definition is_single_option :: "string \<Rightarrow> bool" where
  "is_single_option arg = (length arg > 1 \<and> arg ! 0 = CHR ''-'' \<and> arg ! 1 \<noteq> CHR ''-'')"

definition is_double_option :: "string \<Rightarrow> bool" where
  "is_double_option arg =
     (length arg > 2 \<and> arg ! 0 = CHR ''-'' \<and> arg ! 1 = CHR ''-'' \<and> arg ! 2 \<noteq> CHR ''-'')"

text \<open>
  What the occurrence \<open>order\<close> of a monitor option adds to the monitor values: its
  arguments if they are exactly 6, nothing otherwise.
\<close>

definition monitor_values :: "NutConfOptions \<Rightarrow> string \<Rightarrow> nat \<Rightarrow> string list" where
  "monitor_values opts opt order =
     (case getDouble opts opt order of
        None \<Rightarrow> []
      | Some args \<Rightarrow> if length args = 6 then args else [])"

text \<open>The pointer \<^verbatim>\<open>m_last\<close> is null or points to an entry of its map.\<close>

definition last_valid :: "Options \<Rightarrow> bool" where
  "last_valid opts =
     (case m_last opts of
        None \<Rightarrow> True
      | Some (singleDash, i) \<Rightarrow> i < length (m_single opts)
      | Some (doubleDash, i) \<Rightarrow> i < length (m_double opts))"

text \<open>Both options maps are ordered by key.\<close>

definition sorted_maps :: "'a Options_scheme \<Rightarrow> bool" where
  "sorted_maps opts = (sorted (strings (m_single opts)) \<and> sorted (strings (m_double opts)))"

section \<open>Token classification\<close>

lemma strings_push_back_at: "strings (push_back_at m i arg) = strings m"
  by (simp add: strings_def push_back_at_def map_update list_update_same_conv)

lemma upper_bound_le: "upper_bound m k \<le> length m"
  by (induction m) simp_all

text \<open>The position that \<open>insert_entry\<close> returns is the position of the new entry.\<close>

lemma insert_entry_position:
  "snd (insert_entry m k v) < length (fst (insert_entry m k v)) \<and>
   fst (insert_entry m k v) ! snd (insert_entry m k v) = (k, v)"
  using upper_bound_le[of m k] by (simp add: insert_entry_def Let_def nth_append)

lemma add_last_valid: "last_valid (add opts type opt)"
  using insert_entry_position[of "m_single opts" opt "[]"]
    insert_entry_position[of "m_double opts" opt "[]"]
  by (cases type) (simp_all add: add_def last_valid_def split_beta)

lemma length_push_back_at: "length (push_back_at m i arg) = length m"
  by (simp add: push_back_at_def)

lemma addArg_last_valid: "last_valid opts \<Longrightarrow> last_valid (addArg opts arg)"
  by (auto simp: addArg_def last_valid_def length_push_back_at
           split: option.splits type_t.splits prod.splits)

lemma process_arg_last_valid: "last_valid opts \<Longrightarrow> last_valid (process_arg opts arg)"
  by (simp add: process_arg_def add_last_valid addArg_last_valid) (simp add: last_valid_def)

lemma foldl_process_arg_last_valid:
  "last_valid opts \<Longrightarrow> last_valid (foldl process_arg opts args)"
  by (induction args arbitrary: opts) (simp_all add: process_arg_last_valid)

lemma reached_last_valid: "last_valid (foldl process_arg Options_init args)"
  by (rule foldl_process_arg_last_valid) (simp add: last_valid_def Options_init_def)

text \<open>
  C7: a token that is the empty string, a lone dash, or starts with three or more dashes
  is not taken as an option name. The constructor's loop hands it to \<^verbatim>\<open>addArg\<close>, which
  appends it to the arguments of the current occurrence (leaving that occurrence's name,
  every other entry and the top-level arguments as they are), or to the top-level
  arguments when there is no current occurrence (leaving both maps as they are). In
  every state that the loop reaches from the empty one, a current occurrence is an entry
  of its map.
\<close>

theorem literal_token_is_argument:
  "(arg = [] \<or> arg = ''-'' \<or> take 3 arg = ''---'') \<longrightarrow>
     process_arg opts arg = addArg opts arg \<and>
     m_last (addArg opts arg) = m_last opts \<and>
     strings (m_single (addArg opts arg)) = strings (m_single opts) \<and>
     strings (m_double (addArg opts arg)) = strings (m_double opts) \<and>
     (m_last opts = None \<longrightarrow>
        addArg opts arg = opts\<lparr>m_args := m_args opts @ [arg]\<rparr>) \<and>
     (\<forall>i. m_last opts = Some (singleDash, i) \<and> i < length (m_single opts) \<longrightarrow>
        addArg opts arg =
          opts\<lparr>m_single := (m_single opts)
                  [i := (fst (m_single opts ! i), snd (m_single opts ! i) @ [arg])]\<rparr>) \<and>
     (\<forall>i. m_last opts = Some (doubleDash, i) \<and> i < length (m_double opts) \<longrightarrow>
        addArg opts arg =
          opts\<lparr>m_double := (m_double opts)
                  [i := (fst (m_double opts ! i), snd (m_double opts ! i) @ [arg])]\<rparr>) \<and>
     (\<forall>i. m_last (foldl process_arg Options_init args) = Some (singleDash, i) \<longrightarrow>
        i < length (m_single (foldl process_arg Options_init args))) \<and>
     (\<forall>i. m_last (foldl process_arg Options_init args) = Some (doubleDash, i) \<longrightarrow>
        i < length (m_double (foldl process_arg Options_init args)))"
proof (intro impI conjI allI)
  assume lit: "arg = [] \<or> arg = ''-'' \<or> take 3 arg = ''---''"
  show "process_arg opts arg = addArg opts arg"
  proof -
    consider "arg = []" | "arg = ''-''" | "take 3 arg = ''---''" using lit by blast
    then show ?thesis
    proof cases
      case 3
      then obtain r where "arg = CHR ''-'' # CHR ''-'' # CHR ''-'' # r"
        by (cases arg; cases "tl arg"; cases "tl (tl arg)") auto
      then show ?thesis by (simp add: process_arg_def)
    qed (simp_all add: process_arg_def)
  qed
next
  show "m_last (addArg opts arg) = m_last opts"
    by (simp add: addArg_def split: option.split type_t.split prod.split)
next
  show "strings (m_single (addArg opts arg)) = strings (m_single opts)"
    by (simp add: addArg_def strings_push_back_at split: option.split type_t.split prod.split)
next
  show "strings (m_double (addArg opts arg)) = strings (m_double opts)"
    by (simp add: addArg_def strings_push_back_at split: option.split type_t.split prod.split)
next
  fix i
  assume "m_last (foldl process_arg Options_init args) = Some (singleDash, i)"
  then show "i < length (m_single (foldl process_arg Options_init args))"
    using reached_last_valid[of args] by (simp add: last_valid_def)
next
  fix i
  assume "m_last (foldl process_arg Options_init args) = Some (doubleDash, i)"
  then show "i < length (m_double (foldl process_arg Options_init args))"
    using reached_last_valid[of args] by (simp add: last_valid_def)
qed (simp_all add: addArg_def push_back_at_def)

theorem literal_token_is_argument_witness:
  "take 3 ''---x'' = ''---'' \<and>
   process_arg \<lparr>m_last = Some (doubleDash, 0), m_args = [], m_single = [],
                m_double = [(''a'', [''b''])]\<rparr> ''---x'' =
     \<lparr>m_last = Some (doubleDash, 0), m_args = [], m_single = [],
      m_double = [(''a'', [''b'', ''---x''])]\<rparr> \<and>
   process_arg \<lparr>m_last = Some (singleDash, 0), m_args = [], m_single = [(''s'', [])],
                m_double = [(''a'', [''b''])]\<rparr> ''---x'' =
     \<lparr>m_last = Some (singleDash, 0), m_args = [], m_single = [(''s'', [''---x''])],
      m_double = [(''a'', [''b''])]\<rparr> \<and>
   process_arg \<lparr>m_last = None, m_args = [''c''], m_single = [],
                m_double = [(''a'', [''b''])]\<rparr> ''---x'' =
     \<lparr>m_last = None, m_args = [''c'', ''---x''], m_single = [],
      m_double = [(''a'', [''b''])]\<rparr> \<and>
   m_last (foldl process_arg Options_init [''--a'', ''b'']) = Some (doubleDash, 0) \<and>
   0 < length (m_double (foldl process_arg Options_init [''--a'', ''b'']))"
proof -
  have r: "foldl process_arg Options_init [''--a'', ''b''] =
     \<lparr>m_last = Some (doubleDash, 0), m_args = [], m_single = [],
      m_double = [(''a'', [''b''])]\<rparr>"
    by code_simp
  show ?thesis
    using literal_token_is_argument[of "''---x''"
        "\<lparr>m_last = Some (doubleDash, 0), m_args = [], m_single = [],
          m_double = [(''a'', [''b''])]\<rparr>" "[''--a'', ''b'']"]
      literal_token_is_argument[of "''---x''"
        "\<lparr>m_last = Some (singleDash, 0), m_args = [], m_single = [(''s'', [])],
          m_double = [(''a'', [''b''])]\<rparr>"]
      literal_token_is_argument[of "''---x''"
        "\<lparr>m_last = None, m_args = [''c''], m_single = [],
          m_double = [(''a'', [''b''])]\<rparr>"]
    unfolding r by simp
qed

section \<open>The separator\<close>

lemma process_single: "is_single_option arg \<Longrightarrow> process_arg opts arg = add opts singleDash (drop 1 arg)"
  by (auto simp: is_single_option_def process_arg_def)

lemma process_double: "is_double_option arg \<Longrightarrow> process_arg opts arg = add opts doubleDash (drop 2 arg)"
  by (auto simp: is_double_option_def process_arg_def)

lemma process_separator: "process_arg opts ''--'' = opts\<lparr>m_last := None\<rparr>"
  by (simp add: process_arg_def)

lemma process_other:
  "\<not> is_single_option arg \<Longrightarrow> \<not> is_double_option arg \<Longrightarrow> arg \<noteq> ''--'' \<Longrightarrow>
   process_arg opts arg = addArg opts arg"
proof -
  assume a: "\<not> is_single_option arg" "\<not> is_double_option arg" "arg \<noteq> ''--''"
  show ?thesis
  proof (cases arg)
    case Nil then show ?thesis by (simp add: process_arg_def)
  next
    case (Cons c1 r1)
    note c1 = this
    show ?thesis
    proof (cases r1)
      case Nil with c1 show ?thesis by (simp add: process_arg_def)
    next
      case (Cons c2 r2)
      with c1 a show ?thesis
        by (cases r2) (auto simp: process_arg_def is_single_option_def is_double_option_def)
    qed
  qed
qed

lemma top_level_run:
  "m_last opts = None \<Longrightarrow> \<forall>t\<in>set ts. \<not> is_single_option t \<and> \<not> is_double_option t \<Longrightarrow>
   foldl process_arg opts ts = opts\<lparr>m_args := m_args opts @ filter (\<lambda>t. t \<noteq> ''--'') ts\<rparr>"
proof (induction ts arbitrary: opts)
  case Nil
  then show ?case by simp
next
  case (Cons t ts)
  show ?case
  proof (cases "t = ''--''")
    case True
    have "process_arg opts t = opts" using Cons.prems(1) True by (simp add: process_separator)
    then show ?thesis using Cons True by simp
  next
    case False
    then have "process_arg opts t = opts\<lparr>m_args := m_args opts @ [t]\<rparr>"
      using Cons.prems by (simp add: process_other addArg_def)
    then show ?thesis using Cons False by simp
  qed
qed

text \<open>
  C8: a bare \<^verbatim>\<open>--\<close> resets the current occurrence. Whatever the state before it,
  the tokens that follow it up to the next option token only extend the top-level
  arguments, in their order: the current occurrence is none, and both option maps, so
  also the arguments of the option before the \<^verbatim>\<open>--\<close>, are as they were. A further
  \<^verbatim>\<open>--\<close> in that run is again the separator and is stored nowhere.
\<close>

theorem separator_resets_current:
  "(\<forall>t\<in>set ts. \<not> is_single_option t \<and> \<not> is_double_option t) \<longrightarrow>
     foldl process_arg opts (''--'' # ts) =
       opts\<lparr>m_last := None, m_args := m_args opts @ filter (\<lambda>t. t \<noteq> ''--'') ts\<rparr>"
proof
  assume h: "\<forall>t\<in>set ts. \<not> is_single_option t \<and> \<not> is_double_option t"
  have "foldl process_arg opts (''--'' # ts) = foldl process_arg (opts\<lparr>m_last := None\<rparr>) ts"
    by (simp add: process_separator)
  also have "\<dots> = (opts\<lparr>m_last := None\<rparr>)\<lparr>m_args := m_args (opts\<lparr>m_last := None\<rparr>) @ filter (\<lambda>t. t \<noteq> ''--'') ts\<rparr>"
    using h by (intro top_level_run) simp_all
  finally show "foldl process_arg opts (''--'' # ts) =
       opts\<lparr>m_last := None, m_args := m_args opts @ filter (\<lambda>t. t \<noteq> ''--'') ts\<rparr>" by simp
qed

theorem separator_resets_current_witness:
  "\<not> is_single_option ''x'' \<and> \<not> is_double_option ''x'' \<and>
   \<not> is_single_option ''-'' \<and> \<not> is_double_option ''-'' \<and>
   \<not> is_single_option ''---y'' \<and> \<not> is_double_option ''---y'' \<and>
   Options_ctor [''nutconf'', ''--local'', ''dir'', ''--'', ''x'', ''-'', ''---y''] =
     \<lparr>m_last = None, m_args = [''x'', ''-'', ''---y''], m_single = [],
      m_double = [(''local'', [''dir''])]\<rparr>"
proof -
  have h: "\<forall>t\<in>set [''x'', ''-'', ''---y'']. \<not> is_single_option t \<and> \<not> is_double_option t"
    by (simp add: is_single_option_def is_double_option_def)
  have pre: "foldl process_arg Options_init [''--local'', ''dir''] =
     \<lparr>m_last = Some (doubleDash, 0), m_args = [], m_single = [],
      m_double = [(''local'', [''dir''])]\<rparr>"
    by code_simp
  have "Options_ctor [''nutconf'', ''--local'', ''dir'', ''--'', ''x'', ''-'', ''---y''] =
     foldl process_arg (foldl process_arg Options_init [''--local'', ''dir''])
       (''--'' # [''x'', ''-'', ''---y''])"
    by (simp add: Options_ctor_def)
  also have "\<dots> = \<lparr>m_last = None, m_args = [''x'', ''-'', ''---y''], m_single = [],
      m_double = [(''local'', [''dir''])]\<rparr>"
    using separator_resets_current[of "[''x'', ''-'', ''---y'']"
        "foldl process_arg Options_init [''--local'', ''dir'']"] h
    unfolding pre by simp
  finally show ?thesis using h by simp
qed

section \<open>Validity of the options\<close>

lemma exclusive_fields:
  "m_unknown (exclusive_monitor s) = m_unknown s" "m_args (exclusive_monitor s) = m_args s"
  "m_unknown (exclusive_listen s) = m_unknown s" "m_args (exclusive_listen s) = m_args s"
  "m_unknown (exclusive_device s) = m_unknown s" "m_args (exclusive_device s) = m_args s"
  "m_unknown (set_valid s) = m_unknown s" "m_args (set_valid s) = m_args s"
  "m_errors (set_valid s) = m_errors s"
  by (simp_all add: exclusive_monitor_def exclusive_listen_def exclusive_device_def
        set_valid_def push_error_def)

lemma exclusive_counts:
  "set_monitor_cnt (exclusive_monitor s) = set_monitor_cnt s"
  "add_monitor_cnt (exclusive_monitor s) = add_monitor_cnt s"
  "set_listen_cnt (exclusive_monitor s) = set_listen_cnt s"
  "add_listen_cnt (exclusive_monitor s) = add_listen_cnt s"
  "set_device_cnt (exclusive_monitor s) = set_device_cnt s"
  "add_device_cnt (exclusive_monitor s) = add_device_cnt s"
  "set_monitor_cnt (exclusive_listen s) = set_monitor_cnt s"
  "add_monitor_cnt (exclusive_listen s) = add_monitor_cnt s"
  "set_listen_cnt (exclusive_listen s) = set_listen_cnt s"
  "add_listen_cnt (exclusive_listen s) = add_listen_cnt s"
  "set_device_cnt (exclusive_listen s) = set_device_cnt s"
  "add_device_cnt (exclusive_listen s) = add_device_cnt s"
  "set_monitor_cnt (exclusive_device s) = set_monitor_cnt s"
  "add_monitor_cnt (exclusive_device s) = add_monitor_cnt s"
  "set_listen_cnt (exclusive_device s) = set_listen_cnt s"
  "add_listen_cnt (exclusive_device s) = add_listen_cnt s"
  "set_device_cnt (exclusive_device s) = set_device_cnt s"
  "add_device_cnt (exclusive_device s) = add_device_cnt s"
  "set_monitor_cnt (set_valid s) = set_monitor_cnt s"
  "add_monitor_cnt (set_valid s) = add_monitor_cnt s"
  "set_listen_cnt (set_valid s) = set_listen_cnt s"
  "add_listen_cnt (set_valid s) = add_listen_cnt s"
  "set_device_cnt (set_valid s) = set_device_cnt s"
  "add_device_cnt (set_valid s) = add_device_cnt s"
  by (simp_all add: exclusive_monitor_def exclusive_listen_def exclusive_device_def
        set_valid_def push_error_def)

lemma exclusive_errors:
  "m_errors (exclusive_monitor s) =
     m_errors s @ (if set_monitor_cnt s > 0 \<and> add_monitor_cnt s > 0
                   then [''--set-monitor and --add-monitor options can't both be specified'']
                   else [])"
  "m_errors (exclusive_listen s) =
     m_errors s @ (if set_listen_cnt s > 0 \<and> add_listen_cnt s > 0
                   then [''--set-listen and --add-listen options can't both be specified'']
                   else [])"
  "m_errors (exclusive_device s) =
     m_errors s @ (if set_device_cnt s > 0 \<and> add_device_cnt s > 0
                   then [''--set-device and --add-device options can't both be specified'']
                   else [])"
  by (simp_all add: exclusive_monitor_def exclusive_listen_def exclusive_device_def push_error_def)

lemma exclusive_valid:
  "valid (exclusive_monitor s) = (valid s \<and> \<not> (set_monitor_cnt s > 0 \<and> add_monitor_cnt s > 0))"
  "valid (exclusive_listen s) = (valid s \<and> \<not> (set_listen_cnt s > 0 \<and> add_listen_cnt s > 0))"
  "valid (exclusive_device s) = (valid s \<and> \<not> (set_device_cnt s > 0 \<and> add_device_cnt s > 0))"
  "valid (set_valid s) = (m_unknown s = [] \<and> m_errors s = [] \<and> m_args s = [])"
  by (simp_all add: exclusive_monitor_def exclusive_listen_def exclusive_device_def
        set_valid_def push_error_def)

text \<open>
  C1: after the constructor, \<open>valid\<close> holds exactly when there is no unknown option, no
  error and no argument of the binary itself, and no family (monitor, listen, device)
  has both its set count and its add count above zero. This holds for the lists as the
  constructor leaves them and for the lists as they are after the loop over the options
  (\<open>specified\<close>). For each family with both counts above zero the constructor appends
  the error of that family to the errors, in the order monitor, listen, device, and
  \<open>valid\<close> is false.
\<close>

theorem valid_iff_nothing_wrong:
  "(valid (NutConfOptions_ctor argv) \<longleftrightarrow>
      m_unknown (NutConfOptions_ctor argv) = [] \<and>
      m_errors (NutConfOptions_ctor argv) = [] \<and>
      m_args (NutConfOptions_ctor argv) = [] \<and>
      \<not> (set_monitor_cnt (NutConfOptions_ctor argv) > 0 \<and>
         add_monitor_cnt (NutConfOptions_ctor argv) > 0) \<and>
      \<not> (set_listen_cnt (NutConfOptions_ctor argv) > 0 \<and>
         add_listen_cnt (NutConfOptions_ctor argv) > 0) \<and>
      \<not> (set_device_cnt (NutConfOptions_ctor argv) > 0 \<and>
         add_device_cnt (NutConfOptions_ctor argv) > 0)) \<and>
   (valid (NutConfOptions_ctor argv) \<longleftrightarrow>
      m_unknown (specified argv) = [] \<and>
      m_errors (specified argv) = [] \<and>
      m_args (specified argv) = [] \<and>
      \<not> (set_monitor_cnt (specified argv) > 0 \<and> add_monitor_cnt (specified argv) > 0) \<and>
      \<not> (set_listen_cnt (specified argv) > 0 \<and> add_listen_cnt (specified argv) > 0) \<and>
      \<not> (set_device_cnt (specified argv) > 0 \<and> add_device_cnt (specified argv) > 0)) \<and>
   m_errors (NutConfOptions_ctor argv) =
     m_errors (specified argv) @
     (if set_monitor_cnt (specified argv) > 0 \<and> add_monitor_cnt (specified argv) > 0
      then [''--set-monitor and --add-monitor options can't both be specified''] else []) @
     (if set_listen_cnt (specified argv) > 0 \<and> add_listen_cnt (specified argv) > 0
      then [''--set-listen and --add-listen options can't both be specified''] else []) @
     (if set_device_cnt (specified argv) > 0 \<and> add_device_cnt (specified argv) > 0
      then [''--set-device and --add-device options can't both be specified''] else []) \<and>
   (set_monitor_cnt (NutConfOptions_ctor argv) > 0 \<and>
    add_monitor_cnt (NutConfOptions_ctor argv) > 0 \<longrightarrow>
      \<not> valid (NutConfOptions_ctor argv) \<and>
      ''--set-monitor and --add-monitor options can't both be specified''
        \<in> set (m_errors (NutConfOptions_ctor argv))) \<and>
   (set_listen_cnt (NutConfOptions_ctor argv) > 0 \<and>
    add_listen_cnt (NutConfOptions_ctor argv) > 0 \<longrightarrow>
      \<not> valid (NutConfOptions_ctor argv) \<and>
      ''--set-listen and --add-listen options can't both be specified''
        \<in> set (m_errors (NutConfOptions_ctor argv))) \<and>
   (set_device_cnt (NutConfOptions_ctor argv) > 0 \<and>
    add_device_cnt (NutConfOptions_ctor argv) > 0 \<longrightarrow>
      \<not> valid (NutConfOptions_ctor argv) \<and>
      ''--set-device and --add-device options can't both be specified''
        \<in> set (m_errors (NutConfOptions_ctor argv)))"
  unfolding NutConfOptions_ctor_def
  by (simp only: exclusive_fields exclusive_counts exclusive_errors exclusive_valid) auto

theorem valid_iff_nothing_wrong_witness:
  "set_monitor_cnt (NutConfOptions_ctor [''nutconf'', ''--set-monitor'', ''a'', ''b'', ''c'',
       ''--add-monitor'', ''x'', ''y'', ''z'', ''p'', ''q'', ''r'', ''--set-listen'', ''h'',
       ''--add-listen'', ''i'', ''--set-device'', ''u'', ''d'', ''t'', ''--add-device'']) > 0 \<and>
   add_monitor_cnt (NutConfOptions_ctor [''nutconf'', ''--set-monitor'', ''a'', ''b'', ''c'',
       ''--add-monitor'', ''x'', ''y'', ''z'', ''p'', ''q'', ''r'', ''--set-listen'', ''h'',
       ''--add-listen'', ''i'', ''--set-device'', ''u'', ''d'', ''t'', ''--add-device'']) > 0 \<and>
   set_listen_cnt (NutConfOptions_ctor [''nutconf'', ''--set-monitor'', ''a'', ''b'', ''c'',
       ''--add-monitor'', ''x'', ''y'', ''z'', ''p'', ''q'', ''r'', ''--set-listen'', ''h'',
       ''--add-listen'', ''i'', ''--set-device'', ''u'', ''d'', ''t'', ''--add-device'']) > 0 \<and>
   add_listen_cnt (NutConfOptions_ctor [''nutconf'', ''--set-monitor'', ''a'', ''b'', ''c'',
       ''--add-monitor'', ''x'', ''y'', ''z'', ''p'', ''q'', ''r'', ''--set-listen'', ''h'',
       ''--add-listen'', ''i'', ''--set-device'', ''u'', ''d'', ''t'', ''--add-device'']) > 0 \<and>
   set_device_cnt (NutConfOptions_ctor [''nutconf'', ''--set-monitor'', ''a'', ''b'', ''c'',
       ''--add-monitor'', ''x'', ''y'', ''z'', ''p'', ''q'', ''r'', ''--set-listen'', ''h'',
       ''--add-listen'', ''i'', ''--set-device'', ''u'', ''d'', ''t'', ''--add-device'']) > 0 \<and>
   add_device_cnt (NutConfOptions_ctor [''nutconf'', ''--set-monitor'', ''a'', ''b'', ''c'',
       ''--add-monitor'', ''x'', ''y'', ''z'', ''p'', ''q'', ''r'', ''--set-listen'', ''h'',
       ''--add-listen'', ''i'', ''--set-device'', ''u'', ''d'', ''t'', ''--add-device'']) > 0 \<and>
   \<not> valid (NutConfOptions_ctor [''nutconf'', ''--set-monitor'', ''a'', ''b'', ''c'',
       ''--add-monitor'', ''x'', ''y'', ''z'', ''p'', ''q'', ''r'', ''--set-listen'', ''h'',
       ''--add-listen'', ''i'', ''--set-device'', ''u'', ''d'', ''t'', ''--add-device'']) \<and>
   ''--set-monitor and --add-monitor options can't both be specified''
     \<in> set (m_errors (NutConfOptions_ctor [''nutconf'', ''--set-monitor'', ''a'', ''b'', ''c'',
       ''--add-monitor'', ''x'', ''y'', ''z'', ''p'', ''q'', ''r'', ''--set-listen'', ''h'',
       ''--add-listen'', ''i'', ''--set-device'', ''u'', ''d'', ''t'', ''--add-device''])) \<and>
   ''--set-listen and --add-listen options can't both be specified''
     \<in> set (m_errors (NutConfOptions_ctor [''nutconf'', ''--set-monitor'', ''a'', ''b'', ''c'',
       ''--add-monitor'', ''x'', ''y'', ''z'', ''p'', ''q'', ''r'', ''--set-listen'', ''h'',
       ''--add-listen'', ''i'', ''--set-device'', ''u'', ''d'', ''t'', ''--add-device''])) \<and>
   ''--set-device and --add-device options can't both be specified''
     \<in> set (m_errors (NutConfOptions_ctor [''nutconf'', ''--set-monitor'', ''a'', ''b'', ''c'',
       ''--add-monitor'', ''x'', ''y'', ''z'', ''p'', ''q'', ''r'', ''--set-listen'', ''h'',
       ''--add-listen'', ''i'', ''--set-device'', ''u'', ''d'', ''t'', ''--add-device'']))"
proof -
  let ?r = "NutConfOptions_ctor [''nutconf'', ''--set-monitor'', ''a'', ''b'', ''c'',
       ''--add-monitor'', ''x'', ''y'', ''z'', ''p'', ''q'', ''r'', ''--set-listen'', ''h'',
       ''--add-listen'', ''i'', ''--set-device'', ''u'', ''d'', ''t'', ''--add-device'']"
  have c: "set_monitor_cnt ?r > 0" "add_monitor_cnt ?r > 0" "set_listen_cnt ?r > 0"
    "add_listen_cnt ?r > 0" "set_device_cnt ?r > 0" "add_device_cnt ?r > 0"
    by code_simp+
  show ?thesis
    using c valid_iff_nothing_wrong[of "[''nutconf'', ''--set-monitor'', ''a'', ''b'', ''c'',
       ''--add-monitor'', ''x'', ''y'', ''z'', ''p'', ''q'', ''r'', ''--set-listen'', ''h'',
       ''--add-listen'', ''i'', ''--set-device'', ''u'', ''d'', ''t'', ''--add-device'']"]
    by blast
qed

section \<open>The loop over the double-dashed options\<close>

lemma optMode_get:
  "optMode opts opt order =
     (case get (m_double opts) opt order of
        None \<Rightarrow> (NOT_SPECIFIED, [])
      | Some args \<Rightarrow> if args = [] then (GETTER, []) else (SETTER, args))"
  by (simp add: optMode_def getDouble_def split: option.split)

lemma specify_monitor_monitors:
  "monitors (specify_monitor opts opt) =
     monitors opts @
     (case get (m_double opts) opt
             (if opt ! 0 = CHR ''s'' then set_monitor_cnt opts else add_monitor_cnt opts) of
        None \<Rightarrow> []
      | Some args \<Rightarrow> if length args = 6 then args else [])"
  by (auto simp: specify_monitor_def optMode_get push_error_def Let_def split: option.split)

lemma specify_listen_monitors: "monitors (specify_listen opts opt) = monitors opts"
  by (simp add: specify_listen_def optMode_get push_error_def Let_def split: option.split)

lemma specify_device_monitors: "monitors (specify_device opts opt) = monitors opts"
  by (simp add: specify_device_def optMode_get push_error_def Let_def split: option.split)

lemma specify_monitors:
  "monitors (specify opts opt) =
     (if opt = ''set-monitor'' \<or> opt = ''add-monitor'' then
        monitors opts @
        (case get (m_double opts) opt
                (if opt ! 0 = CHR ''s'' then set_monitor_cnt opts else add_monitor_cnt opts) of
           None \<Rightarrow> []
         | Some args \<Rightarrow> if length args = 6 then args else [])
      else monitors opts)"
  by (simp add: specify_def specify_monitor_monitors specify_listen_monitors
        specify_device_monitors push_error_def Let_def split: prod.split)

lemma specify_monitors_mod6:
  "length (monitors (specify opts opt)) mod 6 = length (monitors opts) mod 6"
  by (simp add: specify_monitors split: option.split)

lemma foldl_specify_monitors_mod6:
  "length (monitors (foldl specify opts ks)) mod 6 = length (monitors opts) mod 6"
  by (induction ks arbitrary: opts) (simp_all add: specify_monitors_mod6)

lemma foldl_unknown_single_monitors:
  "monitors (foldl unknown_single opts ks) = monitors opts"
  by (induction ks arbitrary: opts) (simp_all add: unknown_single_def)

lemma ctor_monitors: "monitors (NutConfOptions_ctor argv) = monitors (specified argv)"
  by (simp add: NutConfOptions_ctor_def exclusive_monitor_def exclusive_listen_def
        exclusive_device_def set_valid_def push_error_def)

lemma specified_monitors_mod6: "length (monitors (specified argv)) mod 6 = 0"
  by (simp add: specified_def Let_def foldl_specify_monitors_mod6
        foldl_unknown_single_monitors NutConfOptions_init_def Options.defs NutConfOptions.defs)

text \<open>
  C10: after the constructor the length of \<open>monitors\<close> is a multiple of 6: a step of
  the loop appends the 6 arguments of a valid monitor occurrence or leaves the list as it
  is. \<open>getMonitor\<close> gives the range error exactly when \<open>which\<close> is at least the length
  divided by 6, and otherwise the elements at the positions \<open>6 * which\<close> to
  \<open>6 * which + 5\<close>; its assertion never fails.
\<close>

theorem monitors_in_sixes:
  "length (monitors (NutConfOptions_ctor argv)) mod 6 = 0 \<and>
   ((\<exists>args. length args = 6 \<and> monitors (specify opts opt) = monitors opts @ args) \<or>
    monitors (specify opts opt) = monitors opts) \<and>
   (getMonitor (NutConfOptions_ctor argv) which = Inl range_error \<longleftrightarrow>
      which \<ge> length (monitors (NutConfOptions_ctor argv)) div 6) \<and>
   (which < length (monitors (NutConfOptions_ctor argv)) div 6 \<longrightarrow>
      getMonitor (NutConfOptions_ctor argv) which =
        Inr (monitors (NutConfOptions_ctor argv) ! (6 * which),
             monitors (NutConfOptions_ctor argv) ! (6 * which + 1),
             monitors (NutConfOptions_ctor argv) ! (6 * which + 2),
             monitors (NutConfOptions_ctor argv) ! (6 * which + 3),
             monitors (NutConfOptions_ctor argv) ! (6 * which + 4),
             monitors (NutConfOptions_ctor argv) ! (6 * which + 5)))"
proof (intro conjI impI)
  show "length (monitors (NutConfOptions_ctor argv)) mod 6 = 0"
    by (simp add: ctor_monitors specified_monitors_mod6)
next
  show "(\<exists>args. length args = 6 \<and> monitors (specify opts opt) = monitors opts @ args) \<or>
    monitors (specify opts opt) = monitors opts"
    by (simp add: specify_monitors split: option.split)
next
  have "which < length (monitors (NutConfOptions_ctor argv)) div 6 \<Longrightarrow>
        6 * which + 6 \<le> length (monitors (NutConfOptions_ctor argv))"
    by arith
  then show "getMonitor (NutConfOptions_ctor argv) which = Inl range_error \<longleftrightarrow>
      which \<ge> length (monitors (NutConfOptions_ctor argv)) div 6"
    by (auto simp: getMonitor_def Let_def)
next
  assume w: "which < length (monitors (NutConfOptions_ctor argv)) div 6"
  then have "6 * which + 6 \<le> length (monitors (NutConfOptions_ctor argv))"
    by arith
  with w show "getMonitor (NutConfOptions_ctor argv) which =
        Inr (monitors (NutConfOptions_ctor argv) ! (6 * which),
             monitors (NutConfOptions_ctor argv) ! (6 * which + 1),
             monitors (NutConfOptions_ctor argv) ! (6 * which + 2),
             monitors (NutConfOptions_ctor argv) ! (6 * which + 3),
             monitors (NutConfOptions_ctor argv) ! (6 * which + 4),
             monitors (NutConfOptions_ctor argv) ! (6 * which + 5))"
    by (simp add: getMonitor_def Let_def)
qed

theorem monitors_in_sixes_witness:
  "1 < length (monitors (NutConfOptions_ctor [''nutconf'',
        ''--set-monitor'', ''a'', ''b'', ''c'', ''d'', ''e'', ''f'',
        ''--set-monitor'', ''g'', ''h'', ''i'', ''j'', ''k'', ''l''])) div 6 \<and>
   getMonitor (NutConfOptions_ctor [''nutconf'',
        ''--set-monitor'', ''a'', ''b'', ''c'', ''d'', ''e'', ''f'',
        ''--set-monitor'', ''g'', ''h'', ''i'', ''j'', ''k'', ''l'']) 1 =
     Inr (''g'', ''h'', ''i'', ''j'', ''k'', ''l'')"
proof -
  have m: "monitors (NutConfOptions_ctor [''nutconf'',
        ''--set-monitor'', ''a'', ''b'', ''c'', ''d'', ''e'', ''f'',
        ''--set-monitor'', ''g'', ''h'', ''i'', ''j'', ''k'', ''l'']) =
      [''a'', ''b'', ''c'', ''d'', ''e'', ''f'', ''g'', ''h'', ''i'', ''j'', ''k'', ''l'']"
    by code_simp
  have h: "1 < length (monitors (NutConfOptions_ctor [''nutconf'',
        ''--set-monitor'', ''a'', ''b'', ''c'', ''d'', ''e'', ''f'',
        ''--set-monitor'', ''g'', ''h'', ''i'', ''j'', ''k'', ''l''])) div 6"
    unfolding m by simp
  show ?thesis
    using h monitors_in_sixes[of "[''nutconf'',
        ''--set-monitor'', ''a'', ''b'', ''c'', ''d'', ''e'', ''f'',
        ''--set-monitor'', ''g'', ''h'', ''i'', ''j'', ''k'', ''l'']" _ _ 1]
    unfolding m by simp
qed

section \<open>Setting the devices\<close>

lemma map_find_upsert_same: "map_find (map_upsert m k f) k = Some (f (map_find m k))"
  by (induction m) auto

lemma map_find_upsert_other: "k \<noteq> k' \<Longrightarrow> map_find (map_upsert m k' f) k = map_find m k"
  by (induction m) auto

lemma map_upsert_fixed: "map_find m k = Some v \<Longrightarrow> f (Some v) = v \<Longrightarrow> map_upsert m k f = m"
  by (induction m) (auto split: if_splits)

lemma has_entry_setStr: "has_entry (setStr sections section entry v) section entry v"
  by (simp add: has_entry_def setStr_def map_find_upsert_same)

lemma has_entry_setStr_other:
  "entry \<noteq> entry' \<Longrightarrow> has_entry sections section entry v \<Longrightarrow>
   has_entry (setStr sections section entry' v') section entry v"
  by (auto simp: has_entry_def setStr_def map_find_upsert_same map_find_upsert_other
           split: option.splits)

lemma setStr_fixed: "has_entry sections section entry v \<Longrightarrow> setStr sections section entry v = sections"
  by (auto simp: has_entry_def setStr_def map_upsert_fixed split: option.splits)

lemma set_device_has:
  "has_entry (set_device sections dev) (dev_id dev) ''driver'' (driver dev)"
  "has_entry (set_device sections dev) (dev_id dev) ''port'' (DeviceSpec.port dev)"
  "desc dev \<noteq> [] \<Longrightarrow> has_entry (set_device sections dev) (dev_id dev) ''desc'' (desc dev)"
  by (simp_all add: set_device_def Let_def setDriver_def setPort_def setDescription_def
        has_entry_setStr has_entry_setStr_other)

lemma set_device_fixed:
  assumes "has_entry sections (dev_id dev) ''driver'' (driver dev)"
    and "has_entry sections (dev_id dev) ''port'' (DeviceSpec.port dev)"
    and "desc dev \<noteq> [] \<Longrightarrow> has_entry sections (dev_id dev) ''desc'' (desc dev)"
  shows "set_device sections dev = sections"
  using assms
  by (simp add: set_device_def Let_def setDriver_def setPort_def setDescription_def setStr_fixed)

lemma set_device_idem: "set_device (set_device sections dev) dev = set_device sections dev"
  by (rule set_device_fixed) (simp_all add: set_device_has)

lemma setDevices_keep: "setDevices devs sections True = Inr (foldl set_device sections devs)"
  by (simp add: setDevices_def)

lemma set_device_other:
  "section \<noteq> dev_id dev \<Longrightarrow> map_find (set_device sections dev) section = map_find sections section"
  by (simp add: set_device_def Let_def setDriver_def setPort_def setDescription_def setStr_def
        map_find_upsert_other)

text \<open>
  C9: with \<open>keep_ex\<close> true, \<open>setDevices\<close> for one device record returns a
  configuration, and \<open>setDevices\<close> for the same record on that configuration returns it
  unchanged; so does one call with the record given twice. In that configuration the
  section of the device has the driver and the port of the record.
\<close>

theorem set_device_twice:
  "setDevices [dev] sections True = Inr (set_device sections dev) \<and>
   setDevices [dev] (set_device sections dev) True = Inr (set_device sections dev) \<and>
   setDevices [dev, dev] sections True = Inr (set_device sections dev) \<and>
   has_entry (set_device sections dev) (dev_id dev) ''driver'' (driver dev) \<and>
   has_entry (set_device sections dev) (dev_id dev) ''port'' (DeviceSpec.port dev)"
  by (simp add: setDevices_keep set_device_idem set_device_has)

lemma remove_devices_global_only:
  "\<forall>e\<in>set rest. fst e = [] \<Longrightarrow> remove_devices sections rest = Inr sections"
  by (induction rest) simp_all

lemma remove_devices_invalidated:
  "\<exists>e\<in>set rest. fst e \<noteq> [] \<Longrightarrow> remove_devices sections rest = Inl invalidated_iterator"
  by (induction rest) auto

lemma setDevices_discard_invalidated:
  "\<exists>e\<in>set sections. fst e \<noteq> [] \<Longrightarrow> setDevices devs sections False = Inl invalidated_iterator"
  by (simp add: setDevices_def remove_devices_invalidated)

text \<open>
  C3: the configuration has the global section and the devices A and B, the new record
  gives A the driver d2 and the port p2. With \<open>keep_ex\<close> true the result has A with the
  new driver and port, B and the global section as they were, and A once. With
  \<open>keep_ex\<close> false the loop that removes the devices erases A and then increments the
  iterator it has just invalidated, so that no result is defined.
\<close>

theorem setDevices_A_B:
  "setDevices [\<lparr>dev_id = ''A'', driver = ''d2'', port = ''p2'', desc = ''''\<rparr>]
     [('''', [(''maxretry'', ''3'')]),
      (''A'', [(''driver'', ''d1''), (''port'', ''p1'')]),
      (''B'', [(''driver'', ''d3''), (''port'', ''p3'')])] True =
   Inr [('''', [(''maxretry'', ''3'')]),
        (''A'', [(''driver'', ''d2''), (''port'', ''p2'')]),
        (''B'', [(''driver'', ''d3''), (''port'', ''p3'')])] \<and>
   setDevices [\<lparr>dev_id = ''A'', driver = ''d2'', port = ''p2'', desc = ''''\<rparr>]
     [('''', [(''maxretry'', ''3'')]),
      (''A'', [(''driver'', ''d1''), (''port'', ''p1'')]),
      (''B'', [(''driver'', ''d3''), (''port'', ''p3'')])] False =
   Inl invalidated_iterator"
  by code_simp

section \<open>Host and port of a monitor\<close>

lemma rfind_absent: "c \<notin> set s \<Longrightarrow> rfind s c = None"
  by (induction s) auto

lemma rfind_last: "c \<notin> set p \<Longrightarrow> rfind (h @ c # p) c = Some (length h)"
  by (induction h) (simp_all add: rfind_absent)

text \<open>
  C5: let \<open>getMonitor\<close> give the record with the host specification \<open>host_port\<close>.
  If \<open>host_port\<close> is \<open>h\<close>, a colon and \<open>p\<close>, with no colon in \<open>p\<close> (the colon is the
  last one), then \<open>monitor\<close> fails with the host specification error when the
  extraction of the port from \<open>p\<close> fails, whatever the power value is; and when the
  extraction gives \<open>n\<close> (and the power value is extracted too) the host name is \<open>h\<close>
  and the port is \<open>n\<close>. If \<open>host_port\<close> has no colon, the host name is all of
  \<open>host_port\<close> and the port is 0. The extraction from \<open>9999\<close> gives 9999; from
  \<open>abc\<close> and from the empty string it fails.
\<close>

theorem monitor_host_port:
  assumes "getMonitor options i = Inr (ups, host_port, pwr_val, user, passwd, md)"
  shows
    "(host_port = h @ '':'' @ p \<and> CHR '':'' \<notin> set p \<and> extract_unsigned 65535 p = None \<longrightarrow>
        monitor i options = Inl failed_to_parse_host_specification) \<and>
     (host_port = h @ '':'' @ p \<and> CHR '':'' \<notin> set p \<and> extract_unsigned 65535 p = Some n \<and>
      extract_unsigned 4294967295 pwr_val = Some w \<longrightarrow>
        monitor i options =
          Inr \<lparr>upsname = ups, hostname = h, port = n, powerValue = w,
               username = user, password = passwd, isMaster = (md = ''master'')\<rparr>) \<and>
     (CHR '':'' \<notin> set host_port \<and> extract_unsigned 4294967295 pwr_val = Some w \<longrightarrow>
        monitor i options =
          Inr \<lparr>upsname = ups, hostname = host_port, port = 0, powerValue = w,
               username = user, password = passwd, isMaster = (md = ''master'')\<rparr>) \<and>
     extract_unsigned 65535 ''9999'' = Some 9999 \<and>
     extract_unsigned 65535 ''abc'' = None \<and>
     extract_unsigned 65535 '''' = None"
proof (intro conjI impI)
  assume "host_port = h @ '':'' @ p \<and> CHR '':'' \<notin> set p \<and> extract_unsigned 65535 p = None"
  then show "monitor i options = Inl failed_to_parse_host_specification"
    using assms by (simp add: monitor_def rfind_last)
next
  assume "host_port = h @ '':'' @ p \<and> CHR '':'' \<notin> set p \<and> extract_unsigned 65535 p = Some n \<and>
      extract_unsigned 4294967295 pwr_val = Some w"
  then show "monitor i options =
          Inr \<lparr>upsname = ups, hostname = h, port = n, powerValue = w,
               username = user, password = passwd, isMaster = (md = ''master'')\<rparr>"
    using assms by (simp add: monitor_def rfind_last)
next
  assume "CHR '':'' \<notin> set host_port \<and> extract_unsigned 4294967295 pwr_val = Some w"
  then show "monitor i options =
          Inr \<lparr>upsname = ups, hostname = host_port, port = 0, powerValue = w,
               username = user, password = passwd, isMaster = (md = ''master'')\<rparr>"
    using assms by (simp add: monitor_def rfind_absent)
next
  show "extract_unsigned 65535 ''9999'' = Some 9999"
    by (simp add: extract_unsigned_def isspace_def isdigit_def digits_value_def digit_value_def)
next
  show "extract_unsigned 65535 ''abc'' = None"
    by (simp add: extract_unsigned_def isspace_def isdigit_def digits_value_def digit_value_def)
next
  show "extract_unsigned 65535 '''' = None"
    by (simp add: extract_unsigned_def isspace_def isdigit_def digits_value_def digit_value_def)
qed

theorem monitor_host_port_witness:
  "getMonitor (NutConfOptions_ctor [''nutconf'',
       ''--add-monitor'', ''ups1'', ''host:9999'', ''1'', ''user'', ''secret'', ''master'',
       ''--add-monitor'', ''ups2'', ''host'', ''2'', ''user'', ''secret'', ''slave'',
       ''--add-monitor'', ''ups3'', ''host:abc'', ''x'', ''user'', ''secret'', ''slave'']) 0 =
     Inr (''ups1'', ''host:9999'', ''1'', ''user'', ''secret'', ''master'') \<and>
   monitor 0 (NutConfOptions_ctor [''nutconf'',
       ''--add-monitor'', ''ups1'', ''host:9999'', ''1'', ''user'', ''secret'', ''master'',
       ''--add-monitor'', ''ups2'', ''host'', ''2'', ''user'', ''secret'', ''slave'',
       ''--add-monitor'', ''ups3'', ''host:abc'', ''x'', ''user'', ''secret'', ''slave'']) =
     Inr \<lparr>upsname = ''ups1'', hostname = ''host'', port = 9999, powerValue = 1,
          username = ''user'', password = ''secret'', isMaster = True\<rparr> \<and>
   monitor 1 (NutConfOptions_ctor [''nutconf'',
       ''--add-monitor'', ''ups1'', ''host:9999'', ''1'', ''user'', ''secret'', ''master'',
       ''--add-monitor'', ''ups2'', ''host'', ''2'', ''user'', ''secret'', ''slave'',
       ''--add-monitor'', ''ups3'', ''host:abc'', ''x'', ''user'', ''secret'', ''slave'']) =
     Inr \<lparr>upsname = ''ups2'', hostname = ''host'', port = 0, powerValue = 2,
          username = ''user'', password = ''secret'', isMaster = False\<rparr> \<and>
   monitor 2 (NutConfOptions_ctor [''nutconf'',
       ''--add-monitor'', ''ups1'', ''host:9999'', ''1'', ''user'', ''secret'', ''master'',
       ''--add-monitor'', ''ups2'', ''host'', ''2'', ''user'', ''secret'', ''slave'',
       ''--add-monitor'', ''ups3'', ''host:abc'', ''x'', ''user'', ''secret'', ''slave'']) =
     Inl failed_to_parse_host_specification"
proof -
  let ?r = "NutConfOptions_ctor [''nutconf'',
       ''--add-monitor'', ''ups1'', ''host:9999'', ''1'', ''user'', ''secret'', ''master'',
       ''--add-monitor'', ''ups2'', ''host'', ''2'', ''user'', ''secret'', ''slave'',
       ''--add-monitor'', ''ups3'', ''host:abc'', ''x'', ''user'', ''secret'', ''slave'']"
  have m: "monitors ?r =
     [''ups1'', ''host:9999'', ''1'', ''user'', ''secret'', ''master'',
      ''ups2'', ''host'', ''2'', ''user'', ''secret'', ''slave'',
      ''ups3'', ''host:abc'', ''x'', ''user'', ''secret'', ''slave'']"
    by code_simp
  have g0: "getMonitor ?r 0 = Inr (''ups1'', ''host:9999'', ''1'', ''user'', ''secret'', ''master'')"
    by (simp add: getMonitor_def m)
  have g1: "getMonitor ?r 1 = Inr (''ups2'', ''host'', ''2'', ''user'', ''secret'', ''slave'')"
    by (simp add: getMonitor_def m)
  have g2: "getMonitor ?r 2 = Inr (''ups3'', ''host:abc'', ''x'', ''user'', ''secret'', ''slave'')"
    by (simp add: getMonitor_def m)
  have e1: "extract_unsigned 4294967295 ''1'' = Some 1"
    by (simp add: extract_unsigned_def isspace_def isdigit_def digits_value_def digit_value_def)
  have e2: "extract_unsigned 4294967295 ''2'' = Some 2"
    by (simp add: extract_unsigned_def isspace_def isdigit_def digits_value_def digit_value_def)
  have m0: "monitor 0 ?r =
     Inr \<lparr>upsname = ''ups1'', hostname = ''host'', port = 9999, powerValue = 1,
          username = ''user'', password = ''secret'', isMaster = True\<rparr>"
    using monitor_host_port[OF g0, of "''host''" "''9999''" 9999 1] e1 by simp
  have m1: "monitor 1 ?r =
     Inr \<lparr>upsname = ''ups2'', hostname = ''host'', port = 0, powerValue = 2,
          username = ''user'', password = ''secret'', isMaster = False\<rparr>"
    using monitor_host_port[OF g1, of _ _ _ 2] e2 by simp
  have m2: "monitor 2 ?r = Inl failed_to_parse_host_specification"
    using monitor_host_port[OF g2, of "''host''" "''abc''"] by simp
  show ?thesis using g0 m0 m1 m2 by simp
qed

section \<open>The options map stays ordered\<close>

lemma insert_entry_Cons:
  "fst (insert_entry (e # m) k v) =
     (if k < fst e then (k, v) # e # m else e # fst (insert_entry m k v))"
  by (simp add: insert_entry_def Let_def)

lemma insert_entry_keys: "set (map fst (fst (insert_entry m k v))) = insert k (set (map fst m))"
  by (induction m) (auto simp: insert_entry_Cons, simp_all add: insert_entry_def)

lemma insert_entry_sorted:
  "sorted (map fst m) \<Longrightarrow> sorted (map fst (fst (insert_entry m k v)))"
proof (induction m)
  case Nil
  then show ?case by (simp add: insert_entry_def)
next
  case (Cons e m)
  show ?case
  proof (cases "k < fst e")
    case True
    with Cons.prems show ?thesis by (auto simp: insert_entry_Cons)
  next
    case False
    have "sorted (map fst (fst (insert_entry m k v)))" using Cons by simp
    moreover have "\<forall>x\<in>set (map fst (fst (insert_entry m k v))). fst e \<le> x"
      using Cons.prems False unfolding insert_entry_keys by auto
    ultimately show ?thesis using False by (simp add: insert_entry_Cons)
  qed
qed

lemma insert_entry_filter:
  "length (filter (\<lambda>e. fst e = n) (fst (insert_entry m k v))) =
     length (filter (\<lambda>e. fst e = n) m) + (if k = n then 1 else 0)"
proof -
  have "length (filter (\<lambda>e. fst e = n) (take i m @ [(k, v)] @ drop i m)) =
        length (filter (\<lambda>e. fst e = n) (take i m @ drop i m)) + (if k = n then 1 else 0)" for i
    by (simp del: append_take_drop_id)
  then show ?thesis by (simp add: insert_entry_def Let_def)
qed

lemma push_back_at_filter:
  "length (filter (\<lambda>e. fst e = n) (push_back_at m i arg)) = length (filter (\<lambda>e. fst e = n) m)"
proof -
  have "map fst (push_back_at m i arg) = map fst m"
    using strings_push_back_at[of m i arg] by (simp add: strings_def)
  then have "filter (\<lambda>k. k = n) (map fst (push_back_at m i arg)) = filter (\<lambda>k. k = n) (map fst m)"
    by simp
  then have "length (filter (\<lambda>k. k = n) (map fst (push_back_at m i arg))) =
             length (filter (\<lambda>k. k = n) (map fst m))" by simp
  then show ?thesis by (simp add: filter_map comp_def)
qed

lemma add_sorted: "sorted_maps opts \<Longrightarrow> sorted_maps (add opts type opt)"
  by (cases type)
     (auto simp: add_def sorted_maps_def strings_def split_beta Let_def intro: insert_entry_sorted)

lemma addArg_sorted: "sorted_maps opts \<Longrightarrow> sorted_maps (addArg opts arg)"
  by (auto simp: addArg_def sorted_maps_def strings_push_back_at
           split: option.split type_t.split prod.split)

lemma reset_sorted: "sorted_maps (opts\<lparr>m_last := None\<rparr>) = sorted_maps opts"
  by (simp add: sorted_maps_def)

lemma process_arg_sorted: "sorted_maps opts \<Longrightarrow> sorted_maps (process_arg opts arg)"
  by (simp add: process_arg_def add_sorted addArg_sorted reset_sorted)

lemma foldl_process_arg_sorted: "sorted_maps opts \<Longrightarrow> sorted_maps (foldl process_arg opts args)"
  by (induction args arbitrary: opts) (simp_all add: process_arg_sorted)

lemma Options_ctor_sorted: "sorted_maps (Options_ctor argv)"
  unfolding Options_ctor_def
  by (rule foldl_process_arg_sorted) (simp add: sorted_maps_def Options_init_def strings_def)

section \<open>Counting and addressing the occurrences of an option\<close>

lemma sorted_run_from:
  "sorted (map fst m) \<Longrightarrow> \<forall>e\<in>set m. n \<le> fst e \<Longrightarrow>
   takeWhile (\<lambda>e. fst e = n) m = filter (\<lambda>e. fst e = n) m"
proof (induction m)
  case Nil
  then show ?case by simp
next
  case (Cons e m)
  show ?case
  proof (cases "fst e = n")
    case True
    with Cons show ?thesis by simp
  next
    case False
    then have "\<forall>x\<in>set m. fst x \<noteq> n" using Cons.prems by fastforce
    then have "filter (\<lambda>e. fst e = n) m = []" by (simp add: filter_empty_conv)
    with False show ?thesis by simp
  qed
qed

lemma sorted_run:
  "sorted (map fst m) \<Longrightarrow>
   takeWhile (\<lambda>e. fst e = n) (find_entry m n) = filter (\<lambda>e. fst e = n) m"
proof (induction m)
  case Nil
  then show ?case by (simp add: find_entry_def)
next
  case (Cons e m)
  show ?case
  proof (cases "fst e = n")
    case True
    have "takeWhile (\<lambda>e. fst e = n) m = filter (\<lambda>e. fst e = n) m"
      using Cons.prems True by (intro sorted_run_from) auto
    with True show ?thesis by (simp add: find_entry_def)
  next
    case False
    with Cons show ?thesis by (simp add: find_entry_def)
  qed
qed

lemma count_from_run: "count_from xs n c = c + length (takeWhile (\<lambda>e. fst e = n) xs)"
  by (induction xs arbitrary: c) simp_all

lemma count_map_sorted:
  "sorted (map fst m) \<Longrightarrow> count_map m n = length (filter (\<lambda>e. fst e = n) m)"
  by (simp add: count_map_def count_from_run sorted_run)

lemma get_from_run:
  "xs = [] \<or> fst (hd xs) = n \<Longrightarrow>
   get_from xs n i =
     (if i < length (takeWhile (\<lambda>e. fst e = n) xs)
      then Some (snd (takeWhile (\<lambda>e. fst e = n) xs ! i)) else None)"
proof (induction xs n i rule: get_from.induct)
  case (1 opt order)
  then show ?case by simp
next
  case (2 e rest opt)
  then show ?case by simp
next
  case (3 e rest opt order)
  show ?case
  proof (cases rest)
    case Nil
    with 3 show ?thesis by simp
  next
    case (Cons nxt rest')
    with 3 show ?thesis by (cases "fst nxt = opt") auto
  qed
qed

lemma find_entry_head: "find_entry m n = [] \<or> fst (hd (find_entry m n)) = n"
  unfolding find_entry_def using hd_dropWhile[of "\<lambda>e. fst e \<noteq> n" m] by auto

lemma get_sorted:
  "sorted (map fst m) \<Longrightarrow>
   get m n i =
     (if i < length (filter (\<lambda>e. fst e = n) m)
      then Some (snd (filter (\<lambda>e. fst e = n) m ! i)) else None)"
  unfolding get_def using get_from_run[OF find_entry_head, of m n i] by (simp add: sorted_run)

lemma get_in_range:
  "sorted (map fst m) \<Longrightarrow> i < count_map m n \<Longrightarrow> \<exists>args. get m n i = Some args"
  by (simp add: get_sorted count_map_sorted)

section \<open>The number of occurrences of an option\<close>

lemma process_arg_double_count:
  "length (filter (\<lambda>e. fst e = n) (m_double (process_arg opts arg))) =
     length (filter (\<lambda>e. fst e = n) (m_double opts)) +
     (if is_double_option arg \<and> drop 2 arg = n then 1 else 0)"
proof -
  consider "is_single_option arg" | "is_double_option arg" | "arg = ''--''"
    | "\<not> is_single_option arg" "\<not> is_double_option arg" "arg \<noteq> ''--''" by blast
  then show ?thesis
  proof cases
    case 1
    then have "\<not> is_double_option arg" by (auto simp: is_single_option_def is_double_option_def)
    with 1 show ?thesis by (simp add: process_single add_def split_beta Let_def)
  next
    case 2
    then show ?thesis by (simp add: process_double add_def split_beta Let_def insert_entry_filter)
  next
    case 3
    then show ?thesis by (simp add: process_separator is_double_option_def)
  next
    case 4
    then show ?thesis
      by (simp add: process_other addArg_def push_back_at_filter
               split: option.split type_t.split prod.split)
  qed
qed

lemma process_arg_single_count:
  "length (filter (\<lambda>e. fst e = n) (m_single (process_arg opts arg))) =
     length (filter (\<lambda>e. fst e = n) (m_single opts)) +
     (if is_single_option arg \<and> drop 1 arg = n then 1 else 0)"
proof -
  consider "is_single_option arg" | "is_double_option arg" | "arg = ''--''"
    | "\<not> is_single_option arg" "\<not> is_double_option arg" "arg \<noteq> ''--''" by blast
  then show ?thesis
  proof cases
    case 1
    then show ?thesis by (simp add: process_single add_def split_beta Let_def insert_entry_filter)
  next
    case 2
    then have "\<not> is_single_option arg" by (auto simp: is_single_option_def is_double_option_def)
    with 2 show ?thesis by (simp add: process_double add_def split_beta Let_def)
  next
    case 3
    then show ?thesis by (simp add: process_separator is_single_option_def)
  next
    case 4
    then show ?thesis
      by (simp add: process_other addArg_def push_back_at_filter
               split: option.split type_t.split prod.split)
  qed
qed

lemma foldl_process_arg_double_count:
  "length (filter (\<lambda>e. fst e = n) (m_double (foldl process_arg opts args))) =
     length (filter (\<lambda>e. fst e = n) (m_double opts)) +
     length (filter (\<lambda>arg. is_double_option arg \<and> drop 2 arg = n) args)"
  by (induction args arbitrary: opts) (simp_all add: process_arg_double_count)

lemma foldl_process_arg_single_count:
  "length (filter (\<lambda>e. fst e = n) (m_single (foldl process_arg opts args))) =
     length (filter (\<lambda>e. fst e = n) (m_single opts)) +
     length (filter (\<lambda>arg. is_single_option arg \<and> drop 1 arg = n) args)"
  by (induction args arbitrary: opts) (simp_all add: process_arg_single_count)

lemma countDouble_started:
  "countDouble (Options_ctor argv) n =
     length (filter (\<lambda>arg. is_double_option arg \<and> drop 2 arg = n) (drop 1 argv))"
  using Options_ctor_sorted[of argv]
  by (simp add: countDouble_def count_map_sorted sorted_maps_def strings_def)
     (simp add: Options_ctor_def foldl_process_arg_double_count Options_init_def)

lemma countSingle_started:
  "countSingle (Options_ctor argv) n =
     length (filter (\<lambda>arg. is_single_option arg \<and> drop 1 arg = n) (drop 1 argv))"
  using Options_ctor_sorted[of argv]
  by (simp add: countSingle_def count_map_sorted sorted_maps_def strings_def)
     (simp add: Options_ctor_def foldl_process_arg_single_count Options_init_def)

text \<open>
  C2: the combined count is declared to return \<^verbatim>\<open>bool\<close>, so that the sum of the two
  counts is converted to true or false. For the arguments \<^verbatim>\<open>--a --a\<close> two occurrences
  named \<open>a\<close> are started, the double-dashed count is 2, and the combined count is true,
  the number 1. The counts of the single-dashed and of the double-dashed occurrences
  alone are the numbers of occurrences started (\<open>countSingle_started\<close>,
  \<open>countDouble_started\<close>).
\<close>

theorem count_is_bool:
  "countSingle (Options_ctor [''nutconf'', ''--a'', ''--a'']) ''a'' = 0 \<and>
   countDouble (Options_ctor [''nutconf'', ''--a'', ''--a'']) ''a'' = 2 \<and>
   count (Options_ctor [''nutconf'', ''--a'', ''--a'']) ''a'' = True \<and>
   of_bool (count (Options_ctor [''nutconf'', ''--a'', ''--a'']) ''a'') = (1::nat)"
  by (simp add: count_def countDouble_started countSingle_started
        is_double_option_def is_single_option_def)

section \<open>The monitor options\<close>

lemma specify_monitor_m_double: "m_double (specify_monitor opts opt) = m_double opts"
  by (simp add: specify_monitor_def push_error_def Let_def split: prod.split)

lemma specify_listen_m_double: "m_double (specify_listen opts opt) = m_double opts"
  by (simp add: specify_listen_def push_error_def Let_def split: prod.split)

lemma specify_device_m_double: "m_double (specify_device opts opt) = m_double opts"
  by (simp add: specify_device_def push_error_def Let_def split: prod.split)

lemma specify_m_double: "m_double (specify opts opt) = m_double opts"
  by (simp add: specify_def specify_monitor_m_double specify_listen_m_double
        specify_device_m_double push_error_def Let_def split: prod.split)

lemma foldl_specify_m_double: "m_double (foldl specify opts ks) = m_double opts"
  by (induction ks arbitrary: opts) (simp_all add: specify_m_double)

lemma foldl_unknown_single_m_double: "m_double (foldl unknown_single opts ks) = m_double opts"
  by (induction ks arbitrary: opts) (simp_all add: unknown_single_def)

lemma specify_monitor_cnts:
  "set_monitor_cnt (specify_monitor opts opt) =
     (if opt ! 0 = CHR ''s'' then Suc (set_monitor_cnt opts) else set_monitor_cnt opts)"
  "add_monitor_cnt (specify_monitor opts opt) =
     (if opt ! 0 = CHR ''s'' then add_monitor_cnt opts else Suc (add_monitor_cnt opts))"
  by (simp_all add: specify_monitor_def push_error_def Let_def split: prod.split)

lemma specify_listen_cnts:
  "set_monitor_cnt (specify_listen opts opt) = set_monitor_cnt opts"
  "add_monitor_cnt (specify_listen opts opt) = add_monitor_cnt opts"
  by (simp_all add: specify_listen_def push_error_def Let_def split: prod.split)

lemma specify_device_cnts:
  "set_monitor_cnt (specify_device opts opt) = set_monitor_cnt opts"
  "add_monitor_cnt (specify_device opts opt) = add_monitor_cnt opts"
  by (simp_all add: specify_device_def push_error_def Let_def split: prod.split)

lemma specify_set_monitor_cnt:
  "set_monitor_cnt (specify opts opt) =
     (if opt = ''set-monitor'' then Suc (set_monitor_cnt opts) else set_monitor_cnt opts)"
  by (simp add: specify_def specify_monitor_cnts specify_listen_cnts specify_device_cnts
        push_error_def Let_def split: prod.split)

lemma specify_add_monitor_cnt:
  "add_monitor_cnt (specify opts opt) =
     (if opt = ''add-monitor'' then Suc (add_monitor_cnt opts) else add_monitor_cnt opts)"
  by (simp add: specify_def specify_monitor_cnts specify_listen_cnts specify_device_cnts
        push_error_def Let_def split: prod.split)

lemma monitor_values_specify: "monitor_values (specify opts k) = monitor_values opts"
  by (intro ext) (simp add: monitor_values_def getDouble_def specify_m_double)

lemma specify_monitors_values:
  "monitors (specify opts opt) =
     monitors opts @
     (if opt = ''set-monitor'' then monitor_values opts opt (set_monitor_cnt opts)
      else if opt = ''add-monitor'' then monitor_values opts opt (add_monitor_cnt opts)
      else [])"
  by (simp add: specify_monitors monitor_values_def getDouble_def)

lemma add_before_set: "sorted (''set-monitor'' # ks) \<Longrightarrow> filter (\<lambda>k. k = ''add-monitor'') ks = []"
proof -
  assume "sorted (''set-monitor'' # ks)"
  then have "\<forall>k\<in>set ks. ''set-monitor'' \<le> k" by simp
  moreover have "\<not> ''set-monitor'' \<le> ''add-monitor''" by simp
  ultimately have "\<forall>k\<in>set ks. k \<noteq> ''add-monitor''" by blast
  then show ?thesis by (simp add: filter_empty_conv)
qed

lemma upt_first: "[c ..< Suc (c + n)] = c # [Suc c ..< Suc (c + n)]"
  by (rule upt_conv_Cons) simp

lemma foldl_specify_monitors:
  "sorted ks \<Longrightarrow>
   monitors (foldl specify opts ks) =
     monitors opts @
     concat (map (monitor_values opts ''add-monitor'')
               [add_monitor_cnt opts ..<
                add_monitor_cnt opts + length (filter (\<lambda>k. k = ''add-monitor'') ks)]) @
     concat (map (monitor_values opts ''set-monitor'')
               [set_monitor_cnt opts ..<
                set_monitor_cnt opts + length (filter (\<lambda>k. k = ''set-monitor'') ks)])"
proof (induction ks arbitrary: opts)
  case Nil
  then show ?case by simp
next
  case (Cons k ks)
  have sorted: "sorted ks" using Cons.prems by simp
  note IH = Cons.IH[OF sorted, of "specify opts k"]
  consider "k = ''set-monitor''" | "k = ''add-monitor''"
    | "k \<noteq> ''set-monitor''" "k \<noteq> ''add-monitor''" by blast
  then show ?case
  proof cases
    case 1
    have none: "filter (\<lambda>k. k = ''add-monitor'') ks = []"
      using Cons.prems 1 by (simp add: add_before_set)
    show ?thesis
      using IH 1 none
      by (simp add: monitor_values_specify specify_monitors_values specify_set_monitor_cnt
            specify_add_monitor_cnt upt_first del: upt_Suc)
  next
    case 2
    show ?thesis
      using IH 2
      by (simp add: monitor_values_specify specify_monitors_values specify_set_monitor_cnt
            specify_add_monitor_cnt upt_first del: upt_Suc)
  next
    case 3
    show ?thesis
      using IH 3
      by (simp add: monitor_values_specify specify_monitors_values specify_set_monitor_cnt
            specify_add_monitor_cnt)
  qed
qed

lemma foldl_specify_cnts:
  "set_monitor_cnt (foldl specify opts ks) =
     set_monitor_cnt opts + length (filter (\<lambda>k. k = ''set-monitor'') ks)"
  "add_monitor_cnt (foldl specify opts ks) =
     add_monitor_cnt opts + length (filter (\<lambda>k. k = ''add-monitor'') ks)"
  by (induction ks arbitrary: opts)
     (simp_all add: specify_set_monitor_cnt specify_add_monitor_cnt)


lemma push_error_mono: "set (m_errors opts) \<subseteq> set (m_errors (push_error opts msg))"
  by (auto simp: push_error_def)

lemma specify_monitor_errors_mono: "set (m_errors opts) \<subseteq> set (m_errors (specify_monitor opts opt))"
  by (auto simp: specify_monitor_def push_error_def Let_def split: prod.split)

lemma specify_listen_errors_mono: "set (m_errors opts) \<subseteq> set (m_errors (specify_listen opts opt))"
  by (auto simp: specify_listen_def push_error_def Let_def split: prod.split)

lemma specify_device_errors_mono: "set (m_errors opts) \<subseteq> set (m_errors (specify_device opts opt))"
  by (auto simp: specify_device_def push_error_def Let_def split: prod.split)

lemma specify_known:
  "specify opts ''autoconfigure'' =
     (if autoconfigure opts then
        push_error opts ''--autoconfigure option specified more than once''
      else opts\<lparr>autoconfigure := True\<rparr>)"
  "specify opts ''is-configured'' =
     (if is_configured opts then
        push_error opts ''--is-configured option specified more than once''
      else opts\<lparr>is_configured := True\<rparr>)"
  "specify opts ''local'' =
     (if local opts \<noteq> [] then
        push_error opts ''--local option specified more than once''
      else if fst (optMode opts ''local'' 0) \<noteq> SETTER then
        push_error opts ''--local option requires an argument''
      else if length (snd (optMode opts ''local'' 0)) > 1 then
        push_error opts ''Only one directory may be specified with the --local option''
      else opts\<lparr>local := hd (snd (optMode opts ''local'' 0))\<rparr>)"
  "specify opts ''system'' =
     (if system opts then
        push_error opts ''--system option specified more than once''
      else opts\<lparr>system := True\<rparr>)"
  "specify opts ''mode'' =
     (if mode opts \<noteq> [] then
        push_error opts ''--mode option specified more than once''
      else if fst (optMode opts ''mode'' 0) \<noteq> SETTER then
        push_error opts ''--mode option requires an argument''
      else if length (snd (optMode opts ''mode'' 0)) > 1 then
        push_error opts ''Only one argument allowed for the --mode option''
      else if length (snd (optMode opts ''mode'' 0)) = 1 \<and>
              \<not> checkMode (hd (snd (optMode opts ''mode'' 0))) then
        push_error opts
          (''Unknown NUT mode: '' @ dquote @ hd (snd (optMode opts ''mode'' 0)) @ dquote)
      else opts\<lparr>mode := hd (snd (optMode opts ''mode'' 0))\<rparr>)"
  "specify opts ''set-monitor'' = specify_monitor opts ''set-monitor''"
  "specify opts ''add-monitor'' = specify_monitor opts ''add-monitor''"
  "specify opts ''set-listen'' = specify_listen opts ''set-listen''"
  "specify opts ''add-listen'' = specify_listen opts ''add-listen''"
  "specify opts ''set-device'' = specify_device opts ''set-device''"
  "specify opts ''add-device'' = specify_device opts ''add-device''"
  by (simp_all add: specify_def split_beta)

lemma specify_unknown:
  assumes "opt \<noteq> ''autoconfigure''" "opt \<noteq> ''is-configured''" "opt \<noteq> ''local''"
    "opt \<noteq> ''system''" "opt \<noteq> ''mode''" "opt \<noteq> ''set-monitor''" "opt \<noteq> ''add-monitor''"
    "opt \<noteq> ''set-listen''" "opt \<noteq> ''add-listen''" "opt \<noteq> ''set-device''"
    "opt \<noteq> ''add-device''"
  shows "specify opts opt = opts\<lparr>m_unknown := m_unknown opts @ [''--'' @ opt]\<rparr>"
  unfolding specify_def using assms by (simp only: if_False HOL.simp_thms)

lemma eleven_cases:
  assumes "x = a1 \<Longrightarrow> Q" "x = a2 \<Longrightarrow> Q" "x = a3 \<Longrightarrow> Q" "x = a4 \<Longrightarrow> Q" "x = a5 \<Longrightarrow> Q"
    "x = a6 \<Longrightarrow> Q" "x = a7 \<Longrightarrow> Q" "x = a8 \<Longrightarrow> Q" "x = a9 \<Longrightarrow> Q" "x = a10 \<Longrightarrow> Q"
    "x = a11 \<Longrightarrow> Q"
    "\<lbrakk>x \<noteq> a1; x \<noteq> a2; x \<noteq> a3; x \<noteq> a4; x \<noteq> a5; x \<noteq> a6; x \<noteq> a7; x \<noteq> a8; x \<noteq> a9;
      x \<noteq> a10; x \<noteq> a11\<rbrakk> \<Longrightarrow> Q"
  shows Q
  using assms by blast

lemma option_name_cases [case_names autoconfigure is_configured local system mode
    set_monitor add_monitor set_listen add_listen set_device add_device unknown]:
  assumes "opt = ''autoconfigure'' \<Longrightarrow> Q" "opt = ''is-configured'' \<Longrightarrow> Q"
    "opt = ''local'' \<Longrightarrow> Q" "opt = ''system'' \<Longrightarrow> Q" "opt = ''mode'' \<Longrightarrow> Q"
    "opt = ''set-monitor'' \<Longrightarrow> Q" "opt = ''add-monitor'' \<Longrightarrow> Q"
    "opt = ''set-listen'' \<Longrightarrow> Q" "opt = ''add-listen'' \<Longrightarrow> Q"
    "opt = ''set-device'' \<Longrightarrow> Q" "opt = ''add-device'' \<Longrightarrow> Q"
    "\<lbrakk>opt \<noteq> ''autoconfigure''; opt \<noteq> ''is-configured''; opt \<noteq> ''local'';
      opt \<noteq> ''system''; opt \<noteq> ''mode''; opt \<noteq> ''set-monitor''; opt \<noteq> ''add-monitor'';
      opt \<noteq> ''set-listen''; opt \<noteq> ''add-listen''; opt \<noteq> ''set-device'';
      opt \<noteq> ''add-device''\<rbrakk> \<Longrightarrow> Q"
  shows Q
  by (rule eleven_cases[of opt "''autoconfigure''" Q "''is-configured''" "''local''" "''system''"
        "''mode''" "''set-monitor''" "''add-monitor''" "''set-listen''" "''add-listen''"
        "''set-device''" "''add-device''"]) (fact assms)+

lemma specify_errors_mono: "set (m_errors opts) \<subseteq> set (m_errors (specify opts opt))"
proof (cases opt rule: option_name_cases)
  case autoconfigure then show ?thesis using push_error_mono by (simp add: specify_known)
next
  case is_configured then show ?thesis using push_error_mono by (simp add: specify_known)
next
  case local then show ?thesis using push_error_mono by (simp add: specify_known)
next
  case system then show ?thesis using push_error_mono by (simp add: specify_known)
next
  case mode then show ?thesis using push_error_mono by (simp add: specify_known)
next
  case set_monitor then show ?thesis by (simp add: specify_known specify_monitor_errors_mono)
next
  case add_monitor then show ?thesis by (simp add: specify_known specify_monitor_errors_mono)
next
  case set_listen then show ?thesis by (simp add: specify_known specify_listen_errors_mono)
next
  case add_listen then show ?thesis by (simp add: specify_known specify_listen_errors_mono)
next
  case set_device then show ?thesis by (simp add: specify_known specify_device_errors_mono)
next
  case add_device then show ?thesis by (simp add: specify_known specify_device_errors_mono)
next
  case unknown then show ?thesis by (simp add: specify_unknown)
qed

lemma foldl_specify_errors_mono: "set (m_errors opts) \<subseteq> set (m_errors (foldl specify opts ks))"
proof (induction ks arbitrary: opts)
  case Nil
  then show ?case by simp
next
  case (Cons k ks)
  show ?case using specify_errors_mono[of opts k] Cons.IH[of "specify opts k"] by auto
qed

lemma specify_monitor_error:
  assumes "opt = ''set-monitor'' \<or> opt = ''add-monitor''"
    and "getDouble opts opt
           (if opt = ''set-monitor'' then set_monitor_cnt opts else add_monitor_cnt opts) =
         Some args"
    and "length args \<noteq> 6"
  shows "(if args = [] then ''--'' @ opt @ '' option requires arguments''
          else ''--'' @ opt @ '' option requires exactly 6 arguments'')
         \<in> set (m_errors (specify opts opt))"
proof -
  have s: "specify opts opt = specify_monitor opts opt"
    using assms(1) by (auto simp: specify_known)
  have c: "(opt ! 0 = CHR ''s'') = (opt = ''set-monitor'')"
    using assms(1) by auto
  have m: "optMode opts opt
             (if opt = ''set-monitor'' then set_monitor_cnt opts else add_monitor_cnt opts) =
           (if args = [] then (GETTER, []) else (SETTER, args))"
    using assms(2) by (simp add: optMode_def)
  show ?thesis
    unfolding s specify_monitor_def c Let_def
    using assms(3) by (simp add: m push_error_def)
qed

lemma foldl_specify_monitor_error:
  assumes "opt = ''set-monitor'' \<or> opt = ''add-monitor''"
    and "getDouble opts opt i = Some args"
    and "length args \<noteq> 6"
    and "(if opt = ''set-monitor'' then set_monitor_cnt opts else add_monitor_cnt opts) \<le> i"
    and "i < (if opt = ''set-monitor'' then set_monitor_cnt opts else add_monitor_cnt opts) +
             length (filter (\<lambda>k. k = opt) ks)"
  shows "(if args = [] then ''--'' @ opt @ '' option requires arguments''
          else ''--'' @ opt @ '' option requires exactly 6 arguments'')
         \<in> set (m_errors (foldl specify opts ks))"
  using assms(2,4,5)
proof (induction ks arbitrary: opts)
  case Nil
  then show ?case by simp
next
  case (Cons k ks)
  let ?cnt = "\<lambda>s. if opt = ''set-monitor'' then set_monitor_cnt s else add_monitor_cnt s"
  have get': "getDouble (specify opts k) opt i = Some args"
    using Cons.prems(1) by (simp add: getDouble_def specify_m_double)
  show ?case
  proof (cases "k = opt \<and> i = ?cnt opts")
    case True
    then have "(if args = [] then ''--'' @ opt @ '' option requires arguments''
          else ''--'' @ opt @ '' option requires exactly 6 arguments'')
         \<in> set (m_errors (specify opts k))"
      using specify_monitor_error[OF assms(1) _ assms(3), of opts] Cons.prems(1) by simp
    then show ?thesis
      using foldl_specify_errors_mono[of "specify opts k" ks] by auto
  next
    case False
    have "?cnt (specify opts k) \<le> i"
      using False Cons.prems(2) assms(1)
      by (auto simp: specify_set_monitor_cnt specify_add_monitor_cnt split: if_splits)
    moreover have "i < ?cnt (specify opts k) + length (filter (\<lambda>k. k = opt) ks)"
      using False Cons.prems(3) assms(1)
      by (auto simp: specify_set_monitor_cnt specify_add_monitor_cnt split: if_splits)
    ultimately show ?thesis
      using Cons.IH[OF get'] by simp
  qed
qed

section \<open>The state after the constructor\<close>

lemma specified_m_double: "m_double (specified argv) = m_double (Options_ctor argv)"
  by (simp add: specified_def Let_def foldl_specify_m_double foldl_unknown_single_m_double
        NutConfOptions_init_def Options.defs)

lemma ctor_m_double: "m_double (NutConfOptions_ctor argv) = m_double (Options_ctor argv)"
  by (simp add: NutConfOptions_ctor_def exclusive_monitor_def exclusive_listen_def
        exclusive_device_def set_valid_def push_error_def specified_m_double)

lemma ctor_errors_mono: "set (m_errors (specified argv)) \<subseteq> set (m_errors (NutConfOptions_ctor argv))"
  by (auto simp: NutConfOptions_ctor_def exclusive_monitor_def exclusive_listen_def
        exclusive_device_def set_valid_def push_error_def)

lemma ctor_cnts:
  "set_monitor_cnt (NutConfOptions_ctor argv) = set_monitor_cnt (specified argv)"
  "add_monitor_cnt (NutConfOptions_ctor argv) = add_monitor_cnt (specified argv)"
  by (simp_all add: NutConfOptions_ctor_def exclusive_monitor_def exclusive_listen_def
        exclusive_device_def set_valid_def push_error_def)

lemma foldl_unknown_single_cnts:
  "set_monitor_cnt (foldl unknown_single opts ks) = set_monitor_cnt opts"
  "add_monitor_cnt (foldl unknown_single opts ks) = add_monitor_cnt opts"
  by (induction ks arbitrary: opts) (simp_all add: unknown_single_def)

lemma init_fields:
  "monitors (NutConfOptions_init base) = []"
  "set_monitor_cnt (NutConfOptions_init base) = 0"
  "add_monitor_cnt (NutConfOptions_init base) = 0"
  "m_double (NutConfOptions_init base) = m_double base"
  "m_single (NutConfOptions_init base) = m_single base"
  "m_args (NutConfOptions_init base) = m_args base"
  "m_errors (NutConfOptions_init base) = []"
  "m_unknown (NutConfOptions_init base) = []"
  "mode (NutConfOptions_init base) = []"
  by (simp_all add: NutConfOptions_init_def Options.defs NutConfOptions.defs)

lemma double_sorted: "sorted (map fst (m_double (Options_ctor argv)))"
  using Options_ctor_sorted[of argv] by (simp add: sorted_maps_def strings_def)

lemma filter_keys: "length (filter (\<lambda>k. k = n) (map fst m)) = length (filter (\<lambda>e. fst e = n) m)"
  by (simp add: filter_map comp_def)

lemma countDouble_ctor:
  "countDouble (NutConfOptions_ctor argv) n =
     length (filter (\<lambda>k. k = n) (map fst (m_double (Options_ctor argv))))"
  by (simp add: countDouble_def ctor_m_double count_map_sorted double_sorted filter_map comp_def)

lemma monitor_values_ctor:
  "monitor_values (NutConfOptions_ctor argv) = monitor_values (NutConfOptions_init (Options_ctor argv))"
  by (intro ext) (simp add: monitor_values_def getDouble_def ctor_m_double init_fields)

lemma monitor_values_unknown_single:
  "monitor_values (foldl unknown_single opts ks) = monitor_values opts"
  by (intro ext) (simp add: monitor_values_def getDouble_def foldl_unknown_single_m_double)

lemma ctor_monitors_values:
  "monitors (NutConfOptions_ctor argv) =
     concat (map (monitor_values (NutConfOptions_ctor argv) ''add-monitor'')
               [0 ..< countDouble (NutConfOptions_ctor argv) ''add-monitor'']) @
     concat (map (monitor_values (NutConfOptions_ctor argv) ''set-monitor'')
               [0 ..< countDouble (NutConfOptions_ctor argv) ''set-monitor''])"
  unfolding ctor_monitors countDouble_ctor monitor_values_ctor
  by (simp add: specified_def Let_def stringsDouble_def stringsSingle_def strings_def
        foldl_unknown_single_m_double init_fields
        foldl_specify_monitors[OF double_sorted] foldl_unknown_single_monitors
        foldl_unknown_single_cnts monitor_values_unknown_single)

lemma ctor_monitor_cnts:
  "set_monitor_cnt (NutConfOptions_ctor argv) = countDouble (NutConfOptions_ctor argv) ''set-monitor''"
  "add_monitor_cnt (NutConfOptions_ctor argv) = countDouble (NutConfOptions_ctor argv) ''add-monitor''"
  unfolding ctor_cnts countDouble_ctor
  by (simp_all add: specified_def Let_def stringsDouble_def stringsSingle_def strings_def
        foldl_unknown_single_m_double init_fields foldl_specify_cnts foldl_unknown_single_cnts)

lemma ctor_monitor_error:
  assumes "opt = ''set-monitor'' \<or> opt = ''add-monitor''"
    and "order < countDouble (NutConfOptions_ctor argv) opt"
    and "getDouble (NutConfOptions_ctor argv) opt order = Some args"
    and "length args \<noteq> 6"
  shows "(if args = [] then ''--'' @ opt @ '' option requires arguments''
          else ''--'' @ opt @ '' option requires exactly 6 arguments'')
         \<in> set (m_errors (NutConfOptions_ctor argv))"
proof -
  let ?o1 = "foldl unknown_single (NutConfOptions_init (Options_ctor argv))
               (stringsSingle (NutConfOptions_init (Options_ctor argv)))"
  have md: "m_double ?o1 = m_double (Options_ctor argv)"
    by (simp add: foldl_unknown_single_m_double init_fields)
  have g: "getDouble ?o1 opt order = Some args"
    using assms(3) by (simp add: getDouble_def ctor_m_double md)
  have c: "(if opt = ''set-monitor'' then set_monitor_cnt ?o1 else add_monitor_cnt ?o1) = 0"
    by (simp add: foldl_unknown_single_cnts init_fields)
  have n: "order < (if opt = ''set-monitor'' then set_monitor_cnt ?o1 else add_monitor_cnt ?o1) +
             length (filter (\<lambda>k. k = opt) (stringsDouble ?o1))"
    using assms(2) unfolding c countDouble_ctor by (simp add: stringsDouble_def strings_def md)
  have "(if args = [] then ''--'' @ opt @ '' option requires arguments''
          else ''--'' @ opt @ '' option requires exactly 6 arguments'')
         \<in> set (m_errors (foldl specify ?o1 (stringsDouble ?o1)))"
    by (rule foldl_specify_monitor_error[OF assms(1) g assms(4) _ n]) (simp add: c)
  then have "(if args = [] then ''--'' @ opt @ '' option requires arguments''
          else ''--'' @ opt @ '' option requires exactly 6 arguments'')
         \<in> set (m_errors (specified argv))"
    by (simp add: specified_def Let_def)
  then show ?thesis using ctor_errors_mono[of argv] by blast
qed

lemma ctor_occurrence:
  "order < countDouble (NutConfOptions_ctor argv) opt \<Longrightarrow>
   \<exists>args. getDouble (NutConfOptions_ctor argv) opt order = Some args"
  unfolding countDouble_def getDouble_def ctor_m_double
  by (rule get_in_range[OF double_sorted])


text \<open>
  C4: for the arguments \<^verbatim>\<open>--set-monitor a b c d e f --set-monitor g h i j k l\<close> the
  constructor gives the twelve values in command-line order and no error, \<open>getMonitor\<close>
  gives the two records with their fields in order, and there is no third record.
  For every argument vector the monitor values are those of the occurrences of
  \<^verbatim>\<open>add-monitor\<close> followed by those of the occurrences of \<^verbatim>\<open>set-monitor\<close>, each
  name's occurrences in the order of their ordinals, where an occurrence with exactly 6
  arguments gives its arguments in order and any other occurrence gives nothing
  (\<open>monitor_values\<close>). The two counters are the numbers of occurrences. Every ordinal
  below the number of occurrences addresses an occurrence; when that occurrence has no
  argument, or a number of arguments other than 6, its error is among the errors, and
  the occurrences after it are processed all the same.
\<close>

theorem monitor_occurrences:
  "monitors (NutConfOptions_ctor [''nutconf'',
      ''--set-monitor'', ''a'', ''b'', ''c'', ''d'', ''e'', ''f'',
      ''--set-monitor'', ''g'', ''h'', ''i'', ''j'', ''k'', ''l'']) =
     [''a'', ''b'', ''c'', ''d'', ''e'', ''f'', ''g'', ''h'', ''i'', ''j'', ''k'', ''l''] \<and>
   m_errors (NutConfOptions_ctor [''nutconf'',
      ''--set-monitor'', ''a'', ''b'', ''c'', ''d'', ''e'', ''f'',
      ''--set-monitor'', ''g'', ''h'', ''i'', ''j'', ''k'', ''l'']) = [] \<and>
   getMonitor (NutConfOptions_ctor [''nutconf'',
      ''--set-monitor'', ''a'', ''b'', ''c'', ''d'', ''e'', ''f'',
      ''--set-monitor'', ''g'', ''h'', ''i'', ''j'', ''k'', ''l'']) 0 =
     Inr (''a'', ''b'', ''c'', ''d'', ''e'', ''f'') \<and>
   getMonitor (NutConfOptions_ctor [''nutconf'',
      ''--set-monitor'', ''a'', ''b'', ''c'', ''d'', ''e'', ''f'',
      ''--set-monitor'', ''g'', ''h'', ''i'', ''j'', ''k'', ''l'']) 1 =
     Inr (''g'', ''h'', ''i'', ''j'', ''k'', ''l'') \<and>
   getMonitor (NutConfOptions_ctor [''nutconf'',
      ''--set-monitor'', ''a'', ''b'', ''c'', ''d'', ''e'', ''f'',
      ''--set-monitor'', ''g'', ''h'', ''i'', ''j'', ''k'', ''l'']) 2 = Inl range_error \<and>
   monitors (NutConfOptions_ctor argv) =
     concat (map (monitor_values (NutConfOptions_ctor argv) ''add-monitor'')
               [0 ..< countDouble (NutConfOptions_ctor argv) ''add-monitor'']) @
     concat (map (monitor_values (NutConfOptions_ctor argv) ''set-monitor'')
               [0 ..< countDouble (NutConfOptions_ctor argv) ''set-monitor'']) \<and>
   set_monitor_cnt (NutConfOptions_ctor argv) =
     countDouble (NutConfOptions_ctor argv) ''set-monitor'' \<and>
   add_monitor_cnt (NutConfOptions_ctor argv) =
     countDouble (NutConfOptions_ctor argv) ''add-monitor'' \<and>
   ((opt = ''set-monitor'' \<or> opt = ''add-monitor'') \<and>
    order < countDouble (NutConfOptions_ctor argv) opt \<longrightarrow>
      (\<exists>args. getDouble (NutConfOptions_ctor argv) opt order = Some args \<and>
         (length args = 6 \<longrightarrow> monitor_values (NutConfOptions_ctor argv) opt order = args) \<and>
         (args = [] \<longrightarrow>
            ''--'' @ opt @ '' option requires arguments''
              \<in> set (m_errors (NutConfOptions_ctor argv))) \<and>
         (args \<noteq> [] \<and> length args \<noteq> 6 \<longrightarrow>
            ''--'' @ opt @ '' option requires exactly 6 arguments''
              \<in> set (m_errors (NutConfOptions_ctor argv)))))"
proof -
  let ?ex = "NutConfOptions_ctor [''nutconf'',
      ''--set-monitor'', ''a'', ''b'', ''c'', ''d'', ''e'', ''f'',
      ''--set-monitor'', ''g'', ''h'', ''i'', ''j'', ''k'', ''l'']"
  have m: "monitors ?ex =
     [''a'', ''b'', ''c'', ''d'', ''e'', ''f'', ''g'', ''h'', ''i'', ''j'', ''k'', ''l'']"
    by code_simp
  have e: "m_errors ?ex = []"
    by code_simp
  have g0: "getMonitor ?ex 0 = Inr (''a'', ''b'', ''c'', ''d'', ''e'', ''f'')"
    by (simp add: getMonitor_def m)
  have g1: "getMonitor ?ex 1 = Inr (''g'', ''h'', ''i'', ''j'', ''k'', ''l'')"
    by (simp add: getMonitor_def m)
  have g2: "getMonitor ?ex 2 = Inl range_error"
    by (simp add: getMonitor_def m)
  have occ: "\<exists>args. getDouble (NutConfOptions_ctor argv) opt order = Some args \<and>
         (length args = 6 \<longrightarrow> monitor_values (NutConfOptions_ctor argv) opt order = args) \<and>
         (args = [] \<longrightarrow>
            ''--'' @ opt @ '' option requires arguments''
              \<in> set (m_errors (NutConfOptions_ctor argv))) \<and>
         (args \<noteq> [] \<and> length args \<noteq> 6 \<longrightarrow>
            ''--'' @ opt @ '' option requires exactly 6 arguments''
              \<in> set (m_errors (NutConfOptions_ctor argv)))"
    if o: "opt = ''set-monitor'' \<or> opt = ''add-monitor''"
      and n: "order < countDouble (NutConfOptions_ctor argv) opt"
  proof -
    obtain args where a: "getDouble (NutConfOptions_ctor argv) opt order = Some args"
      using ctor_occurrence[OF n] by blast
    have "length args = 6 \<longrightarrow> monitor_values (NutConfOptions_ctor argv) opt order = args"
      by (simp add: monitor_values_def a)
    moreover have "args = [] \<longrightarrow>
            ''--'' @ opt @ '' option requires arguments''
              \<in> set (m_errors (NutConfOptions_ctor argv))"
      using ctor_monitor_error[OF o n a] by auto
    moreover have "args \<noteq> [] \<and> length args \<noteq> 6 \<longrightarrow>
            ''--'' @ opt @ '' option requires exactly 6 arguments''
              \<in> set (m_errors (NutConfOptions_ctor argv))"
      using ctor_monitor_error[OF o n a] by auto
    ultimately show ?thesis using a by blast
  qed
  show ?thesis
    using m e g0 g1 g2 ctor_monitors_values[of argv] ctor_monitor_cnts[of argv] occ
    by blast
qed

theorem monitor_occurrences_witness:
  "2 < countDouble (NutConfOptions_ctor [''nutconf'', ''--set-monitor'', ''a'', ''b'', ''c'',
        ''--set-monitor'', ''g'', ''h'', ''i'', ''j'', ''k'', ''l'', ''--set-monitor''])
        ''set-monitor'' \<and>
   getDouble (NutConfOptions_ctor [''nutconf'', ''--set-monitor'', ''a'', ''b'', ''c'',
        ''--set-monitor'', ''g'', ''h'', ''i'', ''j'', ''k'', ''l'', ''--set-monitor''])
        ''set-monitor'' 0 = Some [''a'', ''b'', ''c''] \<and>
   getDouble (NutConfOptions_ctor [''nutconf'', ''--set-monitor'', ''a'', ''b'', ''c'',
        ''--set-monitor'', ''g'', ''h'', ''i'', ''j'', ''k'', ''l'', ''--set-monitor''])
        ''set-monitor'' 1 = Some [''g'', ''h'', ''i'', ''j'', ''k'', ''l''] \<and>
   getDouble (NutConfOptions_ctor [''nutconf'', ''--set-monitor'', ''a'', ''b'', ''c'',
        ''--set-monitor'', ''g'', ''h'', ''i'', ''j'', ''k'', ''l'', ''--set-monitor''])
        ''set-monitor'' 2 = Some [] \<and>
   ''--set-monitor option requires exactly 6 arguments''
     \<in> set (m_errors (NutConfOptions_ctor [''nutconf'', ''--set-monitor'', ''a'', ''b'', ''c'',
        ''--set-monitor'', ''g'', ''h'', ''i'', ''j'', ''k'', ''l'', ''--set-monitor''])) \<and>
   monitor_values (NutConfOptions_ctor [''nutconf'', ''--set-monitor'', ''a'', ''b'', ''c'',
        ''--set-monitor'', ''g'', ''h'', ''i'', ''j'', ''k'', ''l'', ''--set-monitor''])
        ''set-monitor'' 1 = [''g'', ''h'', ''i'', ''j'', ''k'', ''l''] \<and>
   ''--set-monitor option requires arguments''
     \<in> set (m_errors (NutConfOptions_ctor [''nutconf'', ''--set-monitor'', ''a'', ''b'', ''c'',
        ''--set-monitor'', ''g'', ''h'', ''i'', ''j'', ''k'', ''l'', ''--set-monitor''])) \<and>
   monitors (NutConfOptions_ctor [''nutconf'', ''--set-monitor'', ''a'', ''b'', ''c'',
        ''--set-monitor'', ''g'', ''h'', ''i'', ''j'', ''k'', ''l'', ''--set-monitor'']) =
     [''g'', ''h'', ''i'', ''j'', ''k'', ''l'']"
proof -
  let ?argv = "[''nutconf'', ''--set-monitor'', ''a'', ''b'', ''c'',
        ''--set-monitor'', ''g'', ''h'', ''i'', ''j'', ''k'', ''l'', ''--set-monitor'']"
  let ?r = "NutConfOptions_ctor ?argv"
  have c: "countDouble ?r ''set-monitor'' = 3"
    by code_simp
  have g0: "getDouble ?r ''set-monitor'' 0 = Some [''a'', ''b'', ''c'']"
    by code_simp
  have g1: "getDouble ?r ''set-monitor'' 1 = Some [''g'', ''h'', ''i'', ''j'', ''k'', ''l'']"
    by code_simp
  have g2: "getDouble ?r ''set-monitor'' 2 = Some []"
    by code_simp
  have m: "monitors ?r = [''g'', ''h'', ''i'', ''j'', ''k'', ''l'']"
    by code_simp
  have e0: "''--'' @ ''set-monitor'' @ '' option requires exactly 6 arguments'' \<in> set (m_errors ?r)"
    using monitor_occurrences[of ?argv "''set-monitor''" 0] c g0 by simp
  have v1: "monitor_values ?r ''set-monitor'' 1 = [''g'', ''h'', ''i'', ''j'', ''k'', ''l'']"
    using monitor_occurrences[of ?argv "''set-monitor''" 1] c g1 by simp
  have e2: "''--'' @ ''set-monitor'' @ '' option requires arguments'' \<in> set (m_errors ?r)"
    using monitor_occurrences[of ?argv "''set-monitor''" 2] c g2 by simp
  show ?thesis using c g0 g1 g2 m e0 v1 e2 by simp
qed

section \<open>The mode option\<close>

lemma if_True_else: "(if A then True else B) = (A \<or> B)"
  by simp

lemma checkMode_iff:
  "checkMode m \<longleftrightarrow>
     m = ''standalone'' \<or> m = ''netserver'' \<or> m = ''netclient'' \<or> m = ''controlled'' \<or>
     m = ''manual'' \<or> m = ''none''"
  unfolding checkMode_def by (simp only: if_True_else HOL.simp_thms)

lemma checkMode_argument:
  "checkMode m \<Longrightarrow> \<not> is_single_option m \<and> \<not> is_double_option m \<and> m \<noteq> ''--'' \<and> m \<noteq> []"
  unfolding checkMode_iff by (auto simp: is_single_option_def is_double_option_def)

lemma specify_mode_step:
  assumes "mode opts = []" and "getDouble opts ''mode'' 0 = Some [a]"
  shows "specify opts ''mode'' =
           (if checkMode a then opts\<lparr>mode := a\<rparr>
            else push_error opts (''Unknown NUT mode: '' @ dquote @ a @ dquote))"
  using assms by (simp add: specify_known optMode_def)

lemma specify_mode_again:
  "mode opts \<noteq> [] \<Longrightarrow>
   specify opts ''mode'' = push_error opts ''--mode option specified more than once''"
  by (simp add: specify_known)

lemma specify_monitor_mode: "mode (specify_monitor opts opt) = mode opts"
  by (simp add: specify_monitor_def push_error_def Let_def split: prod.split)

lemma specify_listen_mode: "mode (specify_listen opts opt) = mode opts"
  by (simp add: specify_listen_def push_error_def Let_def split: prod.split)

lemma specify_device_mode: "mode (specify_device opts opt) = mode opts"
  by (simp add: specify_device_def push_error_def Let_def split: prod.split)

lemma specify_mode_other: "opt \<noteq> ''mode'' \<Longrightarrow> mode (specify opts opt) = mode opts"
proof (cases opt rule: option_name_cases)
  case unknown then show ?thesis by (simp add: specify_unknown)
qed (simp_all add: specify_known push_error_def specify_monitor_mode specify_listen_mode
       specify_device_mode)

lemma foldl_specify_mode_unknown:
  assumes "getDouble opts ''mode'' 0 = Some [a]" and "\<not> checkMode a" and "mode opts = []"
  shows "mode (foldl specify opts ks) = [] \<and>
         (''mode'' \<in> set ks \<longrightarrow>
            ''Unknown NUT mode: '' @ dquote @ a @ dquote \<in> set (m_errors (foldl specify opts ks)))"
  using assms(1,3)
proof (induction ks arbitrary: opts)
  case Nil
  then show ?case by simp
next
  case (Cons k ks)
  have g: "getDouble (specify opts k) ''mode'' 0 = Some [a]"
    using Cons.prems(1) by (simp add: getDouble_def specify_m_double)
  show ?case
  proof (cases "k = ''mode''")
    case True
    have s: "specify opts k = push_error opts (''Unknown NUT mode: '' @ dquote @ a @ dquote)"
      using True specify_mode_step[OF Cons.prems(2,1)] assms(2) by simp
    then have m: "mode (specify opts k) = []"
      using Cons.prems(2) by (simp add: push_error_def)
    have "''Unknown NUT mode: '' @ dquote @ a @ dquote \<in> set (m_errors (specify opts k))"
      unfolding s by (simp add: push_error_def)
    then have "''Unknown NUT mode: '' @ dquote @ a @ dquote
                 \<in> set (m_errors (foldl specify (specify opts k) ks))"
      using foldl_specify_errors_mono[of "specify opts k" ks] by blast
    then show ?thesis using Cons.IH[OF g m] by simp
  next
    case False
    then have m: "mode (specify opts k) = []"
      using Cons.prems(2) by (simp add: specify_mode_other)
    show ?thesis using Cons.IH[OF g m] False by simp
  qed
qed

lemma foldl_specify_mode_kept:
  assumes "mode opts \<noteq> []"
  shows "mode (foldl specify opts ks) = mode opts"
  using assms
proof (induction ks arbitrary: opts)
  case Nil
  then show ?case by simp
next
  case (Cons k ks)
  have "mode (specify opts k) = mode opts"
  proof (cases "k = ''mode''")
    case True
    then show ?thesis using Cons.prems by (simp add: specify_mode_again push_error_def)
  next
    case False
    then show ?thesis by (simp add: specify_mode_other)
  qed
  then show ?case using Cons by simp
qed

lemma foldl_specify_mode_set:
  assumes "getDouble opts ''mode'' 0 = Some [a]" and "checkMode a" and "mode opts = []"
    and "''mode'' \<in> set ks"
  shows "mode (foldl specify opts ks) = a"
  using assms(1,3,4)
proof (induction ks arbitrary: opts)
  case Nil
  then show ?case by simp
next
  case (Cons k ks)
  show ?case
  proof (cases "k = ''mode''")
    case True
    have s: "specify opts k = opts\<lparr>mode := a\<rparr>"
      using True specify_mode_step[OF Cons.prems(2,1)] assms(2) by simp
    have "a \<noteq> []" using assms(2) checkMode_argument by blast
    then have "mode (foldl specify (specify opts k) ks) = a"
      using foldl_specify_mode_kept[of "specify opts k" ks] unfolding s by simp
    then show ?thesis by simp
  next
    case False
    have g: "getDouble (specify opts k) ''mode'' 0 = Some [a]"
      using Cons.prems(1) by (simp add: getDouble_def specify_m_double)
    have m: "mode (specify opts k) = []"
      using False Cons.prems(2) by (simp add: specify_mode_other)
    have "''mode'' \<in> set ks" using False Cons.prems(3) by simp
    then show ?thesis using Cons.IH[OF g m] by simp
  qed
qed

lemma foldl_unknown_single_mode: "mode (foldl unknown_single opts ks) = mode opts"
  by (induction ks arbitrary: opts) (simp_all add: unknown_single_def)

lemma ctor_mode: "mode (NutConfOptions_ctor argv) = mode (specified argv)"
  by (simp add: NutConfOptions_ctor_def exclusive_monitor_def exclusive_listen_def
        exclusive_device_def set_valid_def push_error_def)

lemma ctor_not_valid: "m_errors (specified argv) \<noteq> [] \<Longrightarrow> \<not> valid (NutConfOptions_ctor argv)"
  unfolding NutConfOptions_ctor_def by (simp only: exclusive_valid) simp

lemma get_Some_key: "get m n i = Some args \<Longrightarrow> n \<in> set (map fst m)"
proof -
  assume g: "get m n i = Some args"
  have "find_entry m n \<noteq> []" using g by (auto simp: get_def)
  then have "\<exists>e\<in>set m. fst e = n"
    unfolding find_entry_def by (auto simp: dropWhile_eq_Nil_conv)
  then show ?thesis by auto
qed

lemma mode_unknown_general:
  assumes "getDouble (NutConfOptions_ctor argv) ''mode'' 0 = Some [a]" and "\<not> checkMode a"
  shows "\<not> valid (NutConfOptions_ctor argv) \<and>
         ''Unknown NUT mode: '' @ dquote @ a @ dquote \<in> set (m_errors (NutConfOptions_ctor argv)) \<and>
         mode (NutConfOptions_ctor argv) = []"
proof -
  let ?o1 = "foldl unknown_single (NutConfOptions_init (Options_ctor argv))
               (stringsSingle (NutConfOptions_init (Options_ctor argv)))"
  have md: "m_double ?o1 = m_double (Options_ctor argv)"
    by (simp add: foldl_unknown_single_m_double init_fields)
  have g: "getDouble ?o1 ''mode'' 0 = Some [a]"
    using assms(1) by (simp add: getDouble_def ctor_m_double md)
  have m: "mode ?o1 = []"
    by (simp add: foldl_unknown_single_mode init_fields)
  have k: "''mode'' \<in> set (stringsDouble ?o1)"
    using g get_Some_key[of "m_double ?o1" "''mode''" 0 "[a]"]
    by (simp add: getDouble_def stringsDouble_def strings_def)
  have sp: "specified argv = foldl specify ?o1 (stringsDouble ?o1)"
    by (simp add: specified_def Let_def)
  have e: "''Unknown NUT mode: '' @ dquote @ a @ dquote \<in> set (m_errors (specified argv))"
    and mo: "mode (specified argv) = []"
    unfolding sp using foldl_specify_mode_unknown[OF g assms(2) m, of "stringsDouble ?o1"] k
    by blast+
  have "m_errors (specified argv) \<noteq> []" using e by auto
  then show ?thesis using e mo ctor_errors_mono[of argv] ctor_not_valid[of argv] ctor_mode[of argv]
    by auto
qed

lemma mode_known_general:
  assumes "getDouble (NutConfOptions_ctor argv) ''mode'' 0 = Some [a]" and "checkMode a"
  shows "mode (NutConfOptions_ctor argv) = a"
proof -
  let ?o1 = "foldl unknown_single (NutConfOptions_init (Options_ctor argv))
               (stringsSingle (NutConfOptions_init (Options_ctor argv)))"
  have md: "m_double ?o1 = m_double (Options_ctor argv)"
    by (simp add: foldl_unknown_single_m_double init_fields)
  have g: "getDouble ?o1 ''mode'' 0 = Some [a]"
    using assms(1) by (simp add: getDouble_def ctor_m_double md)
  have m: "mode ?o1 = []"
    by (simp add: foldl_unknown_single_mode init_fields)
  have k: "''mode'' \<in> set (stringsDouble ?o1)"
    using g get_Some_key[of "m_double ?o1" "''mode''" 0 "[a]"]
    by (simp add: getDouble_def stringsDouble_def strings_def)
  have sp: "specified argv = foldl specify ?o1 (stringsDouble ?o1)"
    by (simp add: specified_def Let_def)
  show ?thesis
    unfolding ctor_mode sp by (rule foldl_specify_mode_set[OF g assms(2) m k])
qed

lemma Options_ctor_mode:
  assumes "\<not> is_single_option a" "\<not> is_double_option a" "a \<noteq> ''--''"
  shows "Options_ctor [bin, ''--mode'', a] =
           \<lparr>m_last = Some (doubleDash, 0), m_args = [], m_single = [],
            m_double = [(''mode'', [a])]\<rparr>"
proof -
  have 1: "process_arg Options_init ''--mode'' =
           \<lparr>m_last = Some (doubleDash, 0), m_args = [], m_single = [],
            m_double = [(''mode'', [])]\<rparr>"
    by (simp add: process_arg_def add_def insert_entry_def Options_init_def)
  show ?thesis
    unfolding Options_ctor_def
    by (simp add: 1 process_other[OF assms] addArg_def push_back_at_def)
qed

lemma specified_mode:
  assumes "\<not> is_single_option a" "\<not> is_double_option a" "a \<noteq> ''--''"
  shows "specified [bin, ''--mode'', a] =
           (if checkMode a then (NutConfOptions_init (Options_ctor [bin, ''--mode'', a]))\<lparr>mode := a\<rparr>
            else push_error (NutConfOptions_init (Options_ctor [bin, ''--mode'', a]))
                   (''Unknown NUT mode: '' @ dquote @ a @ dquote))"
proof -
  let ?o0 = "NutConfOptions_init (Options_ctor [bin, ''--mode'', a])"
  have s: "stringsSingle ?o0 = []" and d: "stringsDouble ?o0 = [''mode'']"
    by (simp_all add: stringsSingle_def stringsDouble_def strings_def init_fields
          Options_ctor_mode[OF assms])
  have g: "getDouble ?o0 ''mode'' 0 = Some [a]"
    by (simp add: getDouble_def get_def find_entry_def init_fields Options_ctor_mode[OF assms])
  have m: "mode ?o0 = []" by (simp add: init_fields)
  have "specified [bin, ''--mode'', a] = foldl specify ?o0 [''mode'']"
    by (simp add: specified_def Let_def s d)
  then show ?thesis by (simp add: specify_mode_step[OF m g])
qed

lemma init_counts:
  "set_listen_cnt (NutConfOptions_init base) = 0"
  "add_listen_cnt (NutConfOptions_init base) = 0"
  "set_device_cnt (NutConfOptions_init base) = 0"
  "add_device_cnt (NutConfOptions_init base) = 0"
  by (simp_all add: NutConfOptions_init_def Options.defs NutConfOptions.defs)

lemma ctor_mode_only:
  assumes "\<not> is_single_option a" "\<not> is_double_option a" "a \<noteq> ''--''"
  shows "mode (NutConfOptions_ctor [bin, ''--mode'', a]) = (if checkMode a then a else [])"
    and "m_errors (NutConfOptions_ctor [bin, ''--mode'', a]) =
           (if checkMode a then [] else [''Unknown NUT mode: '' @ dquote @ a @ dquote])"
    and "valid (NutConfOptions_ctor [bin, ''--mode'', a]) = checkMode a"
  unfolding NutConfOptions_ctor_def specified_mode[OF assms]
  by (simp_all add: exclusive_monitor_def exclusive_listen_def exclusive_device_def
        set_valid_def push_error_def init_fields init_counts Options_ctor_mode[OF assms])

text \<open>
  C6: \<open>checkMode\<close> accepts exactly the six modes. When the loop comes to the mode
  option with no mode set so far and the option has the single argument \<open>a\<close>, it sets
  the mode to \<open>a\<close> and changes nothing else if \<open>a\<close> is one of the six, and otherwise
  only appends the error that quotes \<open>a\<close>. For every argument vector whose mode option
  has the single argument \<open>a\<close>: if \<open>a\<close> is not one of the six, the options are not
  valid, that error is among the errors and no mode is set; if it is, the mode is \<open>a\<close>.
  For the arguments \<^verbatim>\<open>--mode a\<close> alone: with \<open>a\<close> one of the six the mode is \<open>a\<close>,
  there is no error and the options are valid; with any other argument \<open>a\<close> the error
  that quotes \<open>a\<close> is the only one and the options are not valid.
\<close>

theorem mode_option:
  "(checkMode a \<longleftrightarrow>
      a = ''standalone'' \<or> a = ''netserver'' \<or> a = ''netclient'' \<or> a = ''controlled'' \<or>
      a = ''manual'' \<or> a = ''none'') \<and>
   (mode opts = [] \<and> getDouble opts ''mode'' 0 = Some [a] \<longrightarrow>
      specify opts ''mode'' =
        (if checkMode a then opts\<lparr>mode := a\<rparr>
         else push_error opts (''Unknown NUT mode: '' @ dquote @ a @ dquote))) \<and>
   (getDouble (NutConfOptions_ctor argv) ''mode'' 0 = Some [a] \<and> \<not> checkMode a \<longrightarrow>
      \<not> valid (NutConfOptions_ctor argv) \<and>
      ''Unknown NUT mode: '' @ dquote @ a @ dquote \<in> set (m_errors (NutConfOptions_ctor argv)) \<and>
      mode (NutConfOptions_ctor argv) = []) \<and>
   (getDouble (NutConfOptions_ctor argv) ''mode'' 0 = Some [a] \<and> checkMode a \<longrightarrow>
      mode (NutConfOptions_ctor argv) = a) \<and>
   (checkMode a \<longrightarrow>
      mode (NutConfOptions_ctor [bin, ''--mode'', a]) = a \<and>
      m_errors (NutConfOptions_ctor [bin, ''--mode'', a]) = [] \<and>
      valid (NutConfOptions_ctor [bin, ''--mode'', a])) \<and>
   (\<not> checkMode a \<and> \<not> is_single_option a \<and> \<not> is_double_option a \<and> a \<noteq> ''--'' \<longrightarrow>
      mode (NutConfOptions_ctor [bin, ''--mode'', a]) = [] \<and>
      m_errors (NutConfOptions_ctor [bin, ''--mode'', a]) =
        [''Unknown NUT mode: '' @ dquote @ a @ dquote] \<and>
      \<not> valid (NutConfOptions_ctor [bin, ''--mode'', a]))"
proof (intro conjI impI)
  show "checkMode a \<longleftrightarrow>
      a = ''standalone'' \<or> a = ''netserver'' \<or> a = ''netclient'' \<or> a = ''controlled'' \<or>
      a = ''manual'' \<or> a = ''none''"
    by (rule checkMode_iff)
next
  assume "mode opts = [] \<and> getDouble opts ''mode'' 0 = Some [a]"
  then show "specify opts ''mode'' =
        (if checkMode a then opts\<lparr>mode := a\<rparr>
         else push_error opts (''Unknown NUT mode: '' @ dquote @ a @ dquote))"
    using specify_mode_step by blast
next
  assume h: "getDouble (NutConfOptions_ctor argv) ''mode'' 0 = Some [a] \<and> \<not> checkMode a"
  show "\<not> valid (NutConfOptions_ctor argv)"
    and "''Unknown NUT mode: '' @ dquote @ a @ dquote \<in> set (m_errors (NutConfOptions_ctor argv))"
    and "mode (NutConfOptions_ctor argv) = []"
    using mode_unknown_general[of argv a] h by blast+
next
  assume "getDouble (NutConfOptions_ctor argv) ''mode'' 0 = Some [a] \<and> checkMode a"
  then show "mode (NutConfOptions_ctor argv) = a"
    using mode_known_general by blast
next
  assume c: "checkMode a"
  then have arg: "\<not> is_single_option a" "\<not> is_double_option a" "a \<noteq> ''--''"
    using checkMode_argument by blast+
  show "mode (NutConfOptions_ctor [bin, ''--mode'', a]) = a"
    and "m_errors (NutConfOptions_ctor [bin, ''--mode'', a]) = []"
    and "valid (NutConfOptions_ctor [bin, ''--mode'', a])"
    using c by (simp_all add: ctor_mode_only[OF arg])
next
  assume h: "\<not> checkMode a \<and> \<not> is_single_option a \<and> \<not> is_double_option a \<and> a \<noteq> ''--''"
  then have arg: "\<not> is_single_option a" "\<not> is_double_option a" "a \<noteq> ''--''"
    by blast+
  show "mode (NutConfOptions_ctor [bin, ''--mode'', a]) = []"
    and "m_errors (NutConfOptions_ctor [bin, ''--mode'', a]) =
        [''Unknown NUT mode: '' @ dquote @ a @ dquote]"
    and "\<not> valid (NutConfOptions_ctor [bin, ''--mode'', a])"
    using h by (simp_all add: ctor_mode_only[OF arg])
qed

theorem mode_option_witness:
  "checkMode ''standalone'' \<and>
   mode (NutConfOptions_init (Options_ctor [''nutconf'', ''--mode'', ''standalone''])) = [] \<and>
   getDouble (NutConfOptions_init (Options_ctor [''nutconf'', ''--mode'', ''standalone'']))
     ''mode'' 0 = Some [''standalone''] \<and>
   specify (NutConfOptions_init (Options_ctor [''nutconf'', ''--mode'', ''standalone'']))
     ''mode'' =
     (NutConfOptions_init (Options_ctor [''nutconf'', ''--mode'', ''standalone'']))
       \<lparr>mode := ''standalone''\<rparr> \<and>
   getDouble (NutConfOptions_ctor [''nutconf'', ''--system'', ''--mode'', ''standalone''])
     ''mode'' 0 = Some [''standalone''] \<and>
   mode (NutConfOptions_ctor [''nutconf'', ''--system'', ''--mode'', ''standalone'']) =
     ''standalone'' \<and>
   mode (NutConfOptions_ctor [''nutconf'', ''--mode'', ''standalone'']) = ''standalone'' \<and>
   m_errors (NutConfOptions_ctor [''nutconf'', ''--mode'', ''standalone'']) = [] \<and>
   valid (NutConfOptions_ctor [''nutconf'', ''--mode'', ''standalone'']) \<and>
   \<not> checkMode ''bogus'' \<and> \<not> is_single_option ''bogus'' \<and> \<not> is_double_option ''bogus'' \<and>
   getDouble (NutConfOptions_ctor [''nutconf'', ''--mode'', ''bogus'', ''--system''])
     ''mode'' 0 = Some [''bogus''] \<and>
   \<not> valid (NutConfOptions_ctor [''nutconf'', ''--mode'', ''bogus'', ''--system'']) \<and>
   ''Unknown NUT mode: '' @ dquote @ ''bogus'' @ dquote
     \<in> set (m_errors (NutConfOptions_ctor [''nutconf'', ''--mode'', ''bogus'', ''--system''])) \<and>
   mode (NutConfOptions_ctor [''nutconf'', ''--mode'', ''bogus'', ''--system'']) = [] \<and>
   mode (NutConfOptions_ctor [''nutconf'', ''--mode'', ''bogus'']) = [] \<and>
   m_errors (NutConfOptions_ctor [''nutconf'', ''--mode'', ''bogus'']) =
     [''Unknown NUT mode: '' @ dquote @ ''bogus'' @ dquote] \<and>
   \<not> valid (NutConfOptions_ctor [''nutconf'', ''--mode'', ''bogus''])"
proof -
  let ?o0 = "NutConfOptions_init (Options_ctor [''nutconf'', ''--mode'', ''standalone''])"
  let ?r1 = "NutConfOptions_ctor [''nutconf'', ''--system'', ''--mode'', ''standalone'']"
  let ?r2 = "NutConfOptions_ctor [''nutconf'', ''--mode'', ''bogus'', ''--system'']"
  have s: "checkMode ''standalone''" by (simp add: checkMode_def)
  have b: "\<not> checkMode ''bogus''" "\<not> is_single_option ''bogus''" "\<not> is_double_option ''bogus''"
    "''bogus'' \<noteq> ''--''"
    by (simp_all add: checkMode_def is_single_option_def is_double_option_def)
  have m0: "mode ?o0 = []" by (simp add: init_fields)
  have g0: "getDouble ?o0 ''mode'' 0 = Some [''standalone'']" by code_simp
  have g1: "getDouble ?r1 ''mode'' 0 = Some [''standalone'']" by code_simp
  have g2: "getDouble ?r2 ''mode'' 0 = Some [''bogus'']" by code_simp
  have step: "specify ?o0 ''mode'' = ?o0\<lparr>mode := ''standalone''\<rparr>"
    using mode_option[of "''standalone''" ?o0, THEN conjunct2, THEN conjunct1] m0 g0 s
    by simp
  have r1: "mode ?r1 = ''standalone''"
    using mode_option[of "''standalone''" _ "[''nutconf'', ''--system'', ''--mode'', ''standalone'']",
        THEN conjunct2, THEN conjunct2, THEN conjunct2, THEN conjunct1] g1 s
    by simp
  have r2: "\<not> valid ?r2 \<and>
     ''Unknown NUT mode: '' @ dquote @ ''bogus'' @ dquote \<in> set (m_errors ?r2) \<and> mode ?r2 = []"
    using mode_option[of "''bogus''" _ "[''nutconf'', ''--mode'', ''bogus'', ''--system'']",
        THEN conjunct2, THEN conjunct2, THEN conjunct1] g2 b(1)
    by simp
  have known:
    "checkMode ''standalone'' \<longrightarrow>
       mode (NutConfOptions_ctor [''nutconf'', ''--mode'', ''standalone'']) = ''standalone'' \<and>
       m_errors (NutConfOptions_ctor [''nutconf'', ''--mode'', ''standalone'']) = [] \<and>
       valid (NutConfOptions_ctor [''nutconf'', ''--mode'', ''standalone''])"
    by (rule mode_option[of "''standalone''" _ _ "''nutconf''", THEN conjunct2, THEN conjunct2,
          THEN conjunct2, THEN conjunct2, THEN conjunct1])
  have unknown:
    "\<not> checkMode ''bogus'' \<and> \<not> is_single_option ''bogus'' \<and> \<not> is_double_option ''bogus'' \<and>
     ''bogus'' \<noteq> ''--'' \<longrightarrow>
       mode (NutConfOptions_ctor [''nutconf'', ''--mode'', ''bogus'']) = [] \<and>
       m_errors (NutConfOptions_ctor [''nutconf'', ''--mode'', ''bogus'']) =
         [''Unknown NUT mode: '' @ dquote @ ''bogus'' @ dquote] \<and>
       \<not> valid (NutConfOptions_ctor [''nutconf'', ''--mode'', ''bogus''])"
    by (rule mode_option[of "''bogus''" _ _ "''nutconf''", THEN conjunct2, THEN conjunct2,
          THEN conjunct2, THEN conjunct2, THEN conjunct2])
  from known s have k:
    "mode (NutConfOptions_ctor [''nutconf'', ''--mode'', ''standalone'']) = ''standalone'' \<and>
     m_errors (NutConfOptions_ctor [''nutconf'', ''--mode'', ''standalone'']) = [] \<and>
     valid (NutConfOptions_ctor [''nutconf'', ''--mode'', ''standalone''])"
    by (rule mp)
  from b have "\<not> checkMode ''bogus'' \<and> \<not> is_single_option ''bogus'' \<and>
     \<not> is_double_option ''bogus'' \<and> ''bogus'' \<noteq> ''--''"
    by (intro conjI)
  with unknown have u:
    "mode (NutConfOptions_ctor [''nutconf'', ''--mode'', ''bogus'']) = [] \<and>
     m_errors (NutConfOptions_ctor [''nutconf'', ''--mode'', ''bogus'']) =
       [''Unknown NUT mode: '' @ dquote @ ''bogus'' @ dquote] \<and>
     \<not> valid (NutConfOptions_ctor [''nutconf'', ''--mode'', ''bogus''])"
    by (rule mp)
  show ?thesis
    by (intro conjI s m0 g0 step g1 r1 b(1-3) g2 k[THEN conjunct1]
          k[THEN conjunct2, THEN conjunct1] k[THEN conjunct2, THEN conjunct2]
          r2[THEN conjunct1] r2[THEN conjunct2, THEN conjunct1]
          r2[THEN conjunct2, THEN conjunct2] u[THEN conjunct1]
          u[THEN conjunct2, THEN conjunct1] u[THEN conjunct2, THEN conjunct2])
qed

end
